theory Spec2Isabelle
  imports Complex_Main "HOL-Library.Word" "HOL-Library.Multiset"
begin

unbundle bit_operations_syntax

section \<open>Spectral helpers of the cuvis C++ wrapper (cuvis_spectral.hpp)\<close>

text \<open>
  The development embeds the three templates of namespace \<open>cuvis::aux::spectral\<close>:
  \<open>get_mat_datatype\<close>, \<open>get_spectrum_polygon\<close> and \<open>get_histogram\<close>.

  Conventions of the embedding.
  \<^item> The template parameter \<open>data_t\<close> is a value: the three compile-time facts the
    code asks of it (\<open>std::is_floating_point\<close>, \<open>std::is_signed\<close>, \<open>sizeof\<close>).
  \<^item> \<open>double\<close> and \<open>float\<close> are the IEEE 754 formats binary64 and binary32: a
    value is a finite real, an infinity or NaN, and every operation rounds its exact
    result to the nearest value of the format, ties to even, with gradual underflow
    and overflow to infinity. The two zeros are identified (every zero divisor of the
    code is the conversion of an unsigned 0), operations are neither fused nor
    evaluated in a wider format.
  \<^item> \<open>int\<close> has 32 bits. Where C++ leaves an operation undefined (signed overflow,
    integer division by zero, a read outside a buffer, the conversion of a
    \<open>double\<close> whose truncation does not fit the target type) the model returns
    \<open>Inl Undefined_Behaviour\<close>.
  \<^item> A \<open>throw\<close> is \<open>Inl\<close> of the exception, a failing \<open>assert\<close> is
    \<open>Inl Assertion_Failed\<close>.
  \<^item> The arguments of type \<open>size_t\<close> and the sizes \<open>get_histogram\<close> compares with
    them are natural numbers.
  \<^item> OpenCV is library code outside the repository. Its type macros, \<open>cv::minMaxLoc\<close>
    and \<open>cv::calcHist\<close> are modelled after their documentation and implementation;
    the rasterisation rule of \<open>cv::fillPoly\<close> is a parameter.
\<close>

subsection \<open>Errors\<close>

datatype error =
    Invalid_Argument string
  | Assertion_Failed
  | Undefined_Behaviour
  | Cv_Error

subsection \<open>The element type\<close>

record data_t =
  is_floating_point :: bool
  is_signed :: bool
  sizeof :: nat

subsection \<open>OpenCV's type codes\<close>

text \<open>
  The macros of OpenCV's \<open>interface.h\<close> (library code, not part of the repository):
  a depth code in the low three bits, the channel count minus one above them.
\<close>

definition CV_8U :: int where "CV_8U = 0"
definition CV_8S :: int where "CV_8S = 1"
definition CV_16U :: int where "CV_16U = 2"
definition CV_16S :: int where "CV_16S = 3"
definition CV_32S :: int where "CV_32S = 4"
definition CV_32F :: int where "CV_32F = 5"
definition CV_64F :: int where "CV_64F = 6"
definition CV_16F :: int where "CV_16F = 7"

definition CV_MAKETYPE :: "int \<Rightarrow> int \<Rightarrow> int" where
  "CV_MAKETYPE depth cn = (depth AND 7) + push_bit 3 (cn - 1)"

subsection \<open>get_mat_datatype\<close>

definition get_mat_datatype :: "data_t \<Rightarrow> int \<Rightarrow> error + int" where
  "get_mat_datatype dt channel_count =
     (if channel_count < 1 \<or> channel_count > 511
      then Inl (Invalid_Argument ''Invalid channel count'')
      else if \<not> is_floating_point dt then
        (if \<not> is_signed dt then
           (if sizeof dt = 1 then Inr (CV_MAKETYPE CV_8U channel_count)
            else if sizeof dt = 2 then Inr (CV_MAKETYPE CV_16U channel_count)
            else Inl (Invalid_Argument ''Invalid bitdepth for unsigned integer data type''))
         else
           (if sizeof dt = 1 then Inr (CV_MAKETYPE CV_8S channel_count)
            else if sizeof dt = 2 then Inr (CV_MAKETYPE CV_16S channel_count)
            else if sizeof dt = 4 then Inr (CV_MAKETYPE CV_32S channel_count)
            else Inl (Invalid_Argument ''Invalid bitdepth for signed integer data type'')))
      else
        (if sizeof dt = 2 then Inr (CV_MAKETYPE CV_16F channel_count)
         else if sizeof dt = 4 then Inr (CV_MAKETYPE CV_32F channel_count)
         else if sizeof dt = 8 then Inr (CV_MAKETYPE CV_64F channel_count)
         else Inl (Invalid_Argument ''Invalid bitdepth for floating point data type'')))"

subsection \<open>Floating-point arithmetic\<close>

text \<open>
  A floating-point value, and a binary format: the precision in bits and the
  exponents of the smallest and of the largest normal binade.
\<close>

datatype fp = Finite real | PInf | NInf | NaN

datatype format = Format (prec: nat) (e_min: int) (e_max: int)

definition binary16 :: format where "binary16 = Format 11 (- 14) 15"
definition binary32 :: format where "binary32 = Format 24 (- 126) 127"
definition binary64 :: format where "binary64 = Format 53 (- 1022) 1023"
definition x87_extended :: format where "x87_extended = Format 64 (- 16382) 16383"

text \<open>The nearest integer, a tie going to the even one.\<close>

definition round_half_even :: "real \<Rightarrow> int" where
  "round_half_even x =
     (let n = \<lfloor>x\<rfloor>; r = x - of_int n
      in if r < 1 / 2 then n else if 1 / 2 < r then n + 1 else if even n then n else n + 1)"

text \<open>
  The distance of neighbouring values of the format around \<open>x\<close>: a power of two
  given by the binade of \<open>x\<close>, or by the smallest normal binade below it.
\<close>

definition quantum :: "format \<Rightarrow> real \<Rightarrow> real" where
  "quantum f x = 2 powi (max \<lfloor>log 2 \<bar>x\<bar>\<rfloor> (e_min f) - (int (prec f) - 1))"

definition round_nearest :: "format \<Rightarrow> real \<Rightarrow> real" where
  "round_nearest f x =
     (if x = 0 then 0 else quantum f x * of_int (round_half_even (x / quantum f x)))"

text \<open>Rounding an exact result into the format; beyond the largest binade it is infinite.\<close>

definition fp_round :: "format \<Rightarrow> real \<Rightarrow> fp" where
  "fp_round f x =
     (let r = round_nearest f x
      in if 2 powi (e_max f + 1) \<le> r then PInf
         else if r \<le> - (2 powi (e_max f + 1)) then NInf
         else Finite r)"

text \<open>The conversion of a value to a format.\<close>

fun fp_conv :: "format \<Rightarrow> fp \<Rightarrow> fp" where
  "fp_conv f (Finite a) = fp_round f a"
| "fp_conv f PInf = PInf"
| "fp_conv f NInf = NInf"
| "fp_conv f NaN = NaN"

fun fp_neg :: "fp \<Rightarrow> fp" where
  "fp_neg (Finite a) = Finite (- a)"
| "fp_neg PInf = NInf"
| "fp_neg NInf = PInf"
| "fp_neg NaN = NaN"

fun fp_add :: "format \<Rightarrow> fp \<Rightarrow> fp \<Rightarrow> fp" where
  "fp_add f (Finite a) (Finite b) = fp_round f (a + b)"
| "fp_add f NaN b = NaN"
| "fp_add f a NaN = NaN"
| "fp_add f PInf NInf = NaN"
| "fp_add f NInf PInf = NaN"
| "fp_add f PInf b = PInf"
| "fp_add f a PInf = PInf"
| "fp_add f NInf b = NInf"
| "fp_add f a NInf = NInf"

definition fp_sub :: "format \<Rightarrow> fp \<Rightarrow> fp \<Rightarrow> fp" where
  "fp_sub f a b = fp_add f a (fp_neg b)"

fun fp_mul :: "format \<Rightarrow> fp \<Rightarrow> fp \<Rightarrow> fp" where
  "fp_mul f (Finite a) (Finite b) = fp_round f (a * b)"
| "fp_mul f NaN b = NaN"
| "fp_mul f a NaN = NaN"
| "fp_mul f PInf (Finite b) = (if b = 0 then NaN else if 0 < b then PInf else NInf)"
| "fp_mul f NInf (Finite b) = (if b = 0 then NaN else if 0 < b then NInf else PInf)"
| "fp_mul f (Finite a) PInf = (if a = 0 then NaN else if 0 < a then PInf else NInf)"
| "fp_mul f (Finite a) NInf = (if a = 0 then NaN else if 0 < a then NInf else PInf)"
| "fp_mul f PInf PInf = PInf"
| "fp_mul f NInf NInf = PInf"
| "fp_mul f PInf NInf = NInf"
| "fp_mul f NInf PInf = NInf"

fun fp_div :: "format \<Rightarrow> fp \<Rightarrow> fp \<Rightarrow> fp" where
  "fp_div f (Finite a) (Finite b) =
     (if b = 0 then (if a = 0 then NaN else if 0 < a then PInf else NInf)
      else fp_round f (a / b))"
| "fp_div f NaN b = NaN"
| "fp_div f a NaN = NaN"
| "fp_div f (Finite a) PInf = Finite 0"
| "fp_div f (Finite a) NInf = Finite 0"
| "fp_div f PInf (Finite b) = (if 0 \<le> b then PInf else NInf)"
| "fp_div f NInf (Finite b) = (if 0 \<le> b then NInf else PInf)"
| "fp_div f PInf PInf = NaN"
| "fp_div f PInf NInf = NaN"
| "fp_div f NInf PInf = NaN"
| "fp_div f NInf NInf = NaN"

fun fp_sqrt :: "format \<Rightarrow> fp \<Rightarrow> fp" where
  "fp_sqrt f (Finite a) = (if a < 0 then NaN else fp_round f (sqrt a))"
| "fp_sqrt f PInf = PInf"
| "fp_sqrt f NInf = NaN"
| "fp_sqrt f NaN = NaN"


subsection \<open>Conversions and element arithmetic\<close>

text \<open>
  The conversion of a \<open>double\<close> to \<open>int\<close> drops the fraction; it is undefined when
  the truncated value is no \<open>int\<close>, and defined for the numbers \<open>fits_int\<close>
  describes. The result of an \<open>int\<close> operation is defined when it is an \<open>int\<close>.
\<close>

definition truncate_toward_zero :: "real \<Rightarrow> int" where
  "truncate_toward_zero d = (if 0 \<le> d then \<lfloor>d\<rfloor> else \<lceil>d\<rceil>)"

definition int_result :: "int \<Rightarrow> error + int" where
  "int_result i = (if - (2 ^ 31) \<le> i \<and> i < 2 ^ 31 then Inr i else Inl Undefined_Behaviour)"

definition fits_int :: "real \<Rightarrow> bool" where
  "fits_int d = (- (2 ^ 31) - 1 < d \<and> d < 2 ^ 31)"

fun double_to_int :: "fp \<Rightarrow> error + int" where
  "double_to_int (Finite d) = int_result (truncate_toward_zero d)"
| "double_to_int PInf = Inl Undefined_Behaviour"
| "double_to_int NInf = Inl Undefined_Behaviour"
| "double_to_int NaN = Inl Undefined_Behaviour"

text \<open>\<open>std::round\<close>: to the nearest integer, halfway cases away from zero.\<close>

definition std_round :: "real \<Rightarrow> real" where
  "std_round d = (if 0 \<le> d then of_int \<lfloor>d + 1 / 2\<rfloor> else of_int \<lceil>d - 1 / 2\<rceil>)"

fun std_round_double :: "fp \<Rightarrow> fp" where
  "std_round_double (Finite d) = Finite (std_round d)"
| "std_round_double PInf = PInf"
| "std_round_double NInf = NInf"
| "std_round_double NaN = NaN"

text \<open>
  The format of a floating-point element type, by its size (the 16-byte
  \<open>long double\<close> is the x87 extended format).
\<close>

definition float_format :: "data_t \<Rightarrow> format" where
  "float_format dt =
     (if sizeof dt = 2 then binary16 else if sizeof dt = 4 then binary32
      else if sizeof dt = 8 then binary64 else x87_extended)"

text \<open>
  \<^verbatim>\<open>loc_val * loc_val\<close> with \<^verbatim>\<open>auto loc_val = img._data[...]\<close>: the product is
  formed in the type of \<open>data_t\<close> after the usual arithmetic conversions, before it
  is added to the \<open>double\<close> square sum. Integer types narrower than \<open>int\<close> are
  promoted to \<open>int\<close>; a signed product that does not fit is undefined, an
  unsigned one of four or more bytes wraps around. A floating-point product is
  rounded to the format of the element type.
\<close>

definition loc_val_squared :: "data_t \<Rightarrow> real \<Rightarrow> error + fp" where
  "loc_val_squared dt loc_val =
     (if is_floating_point dt
      then Inr (fp_mul (float_format dt) (Finite loc_val) (Finite loc_val))
      else
        (let p = \<lfloor>loc_val\<rfloor> * \<lfloor>loc_val\<rfloor> in
         if sizeof dt < 4 then
           (if p < 2 ^ 31 then Inr (Finite (of_int p)) else Inl Undefined_Behaviour)
         else if is_signed dt then
           (if p < 2 ^ (8 * sizeof dt - 1) then Inr (Finite (of_int p))
            else Inl Undefined_Behaviour)
         else Inr (Finite (of_int (p mod 2 ^ (8 * sizeof dt))))))"

text \<open>
  The compound assignment \<^verbatim>\<open>s += t\<close> of a \<open>double\<close> \<open>s\<close> and an operand of the
  element type or of the type of the product: the operand is converted to
  \<open>double\<close> and the sum is formed in \<open>double\<close>; a \<open>long double\<close> operand has the
  sum formed in its format and then converted.
\<close>

definition plus_assign :: "data_t \<Rightarrow> fp \<Rightarrow> fp \<Rightarrow> fp" where
  "plus_assign dt s t =
     (if is_floating_point dt \<and> 8 < sizeof dt
      then fp_conv binary64 (fp_add x87_extended s t)
      else fp_add binary64 s (fp_conv binary64 t))"

subsection \<open>The per-channel statistics of the polygon case\<close>

text \<open>
  The last loop of the polygon case computes, from the running sum, the running
  square sum and the pixel counter:
  \<^verbatim>\<open>double mean = sum_v[z] / n;\<close> and
  \<^verbatim>\<open>loc_res.std = sqrt((sq_sum_v[z] - 2 * sum_v[z] * mean) / n + mean * mean);\<close>
  First the two expressions over the real numbers, then as the code evaluates
  them, operation by operation in \<open>double\<close>, the counter converted from
  \<open>std::uint64_t\<close>.
\<close>

definition channel_mean :: "real \<Rightarrow> nat \<Rightarrow> real" where
  "channel_mean sum_z n = sum_z / real n"

definition channel_std :: "real \<Rightarrow> real \<Rightarrow> nat \<Rightarrow> real" where
  "channel_std sq_sum_z sum_z n =
     (let mean = channel_mean sum_z n
      in sqrt ((sq_sum_z - 2 * sum_z * mean) / real n + mean * mean))"

definition channel_mean_double :: "fp \<Rightarrow> nat \<Rightarrow> fp" where
  "channel_mean_double sum_z n = fp_div binary64 sum_z (fp_round binary64 (real n))"

definition channel_std_double :: "fp \<Rightarrow> fp \<Rightarrow> nat \<Rightarrow> fp" where
  "channel_std_double sq_sum_z sum_z n =
     (let mean = channel_mean_double sum_z n
      in fp_sqrt binary64
           (fp_add binary64
              (fp_div binary64
                 (fp_sub binary64 sq_sum_z
                    (fp_mul binary64 (fp_mul binary64 (Finite 2) sum_z) mean))
                 (fp_round binary64 (real n)))
              (fp_mul binary64 mean mean)))"

subsection \<open>Images, points and spectra\<close>

text \<open>
  \<open>image_t<data_t>\<close> is declared in the SDK header \<open>cuvis.hpp\<close>; the code reads
  its fields \<open>_width\<close>, \<open>_height\<close>, \<open>_channels\<close>, \<open>_wavelength\<close> and \<open>_data\<close>.
  The two pointers become lists, so that a read past the end is visible; a null
  \<open>_wavelength\<close> is \<open>None\<close>. An element is stored as the real number it denotes,
  whatever \<open>data_t\<close> is.
\<close>

record image_t =
  img_width :: nat
  img_height :: nat
  img_channels :: nat
  img_wavelength :: "32 word list option"
  img_data :: "real list"

definition read_data :: "image_t \<Rightarrow> int \<Rightarrow> error + real" where
  "read_data img i =
     (if 0 \<le> i \<and> i < int (length (img_data img))
      then Inr (img_data img ! nat i) else Inl Undefined_Behaviour)"

definition read_wavelength :: "image_t \<Rightarrow> int \<Rightarrow> error + 32 word" where
  "read_wavelength img i =
     (case img_wavelength img of
        None \<Rightarrow> Inl Undefined_Behaviour
      | Some wl \<Rightarrow>
          if 0 \<le> i \<and> i < int (length wl) then Inr (wl ! nat i)
          else Inl Undefined_Behaviour)"

record spectral_mean_t =
  sm_wavelength :: "32 word"
  sm_value :: fp
  sm_std :: fp

text \<open>
  An element of \<open>spectrum_t res(img._channels)\<close>: value-initialised, so the
  wavelength is 0 and the two default member initialisers apply.
\<close>

definition spectral_mean_default :: spectral_mean_t where
  "spectral_mean_default =
     \<lparr>sm_wavelength = 0, sm_value = Finite (- 999), sm_std = Finite 0\<rparr>"

type_synonym spectrum_t = "spectral_mean_t list"

text \<open>The coordinates of a point are finite \<open>double\<close>s.\<close>

record point_t =
  pt_x :: real
  pt_y :: real

type_synonym polygon_t = "point_t list"

subsection \<open>Loops\<close>

text \<open>A counting \<open>for\<close> loop over the listed indices; an error ends it.\<close>

fun for_loop :: "nat list \<Rightarrow> (nat \<Rightarrow> 's \<Rightarrow> error + 's) \<Rightarrow> 's \<Rightarrow> error + 's" where
  "for_loop [] body s = Inr s"
| "for_loop (i # is) body s =
     (case body i s of Inl e \<Rightarrow> Inl e | Inr s' \<Rightarrow> for_loop is body s')"

subsection \<open>The polygon mask\<close>

text \<open>
  \<open>cv::fillPoly\<close> is OpenCV library code. Its rasterisation rule is a parameter of
  the model: \<open>rule vpts x y\<close> says whether the pixel in column \<open>x\<close>, row \<open>y\<close> is
  covered by the contours \<open>vpts\<close>. A covered pixel is overwritten with the colour,
  every other pixel keeps its value. A mask maps row and column to an 8-bit value.
\<close>

type_synonym mask_t = "nat \<Rightarrow> nat \<Rightarrow> 8 word"

type_synonym fill_rule = "(int \<times> int) list list \<Rightarrow> nat \<Rightarrow> nat \<Rightarrow> bool"

definition fillPoly :: "fill_rule \<Rightarrow> mask_t \<Rightarrow> (int \<times> int) list list \<Rightarrow> 8 word \<Rightarrow> mask_t" where
  "fillPoly rule msk vpts colour = (\<lambda>y x. if rule vpts x y then colour else msk y x)"

text \<open>
  \<^verbatim>\<open>transformed_pt.emplace_back(pt._x * (img._width - 1), pt._y * (img._height - 1))\<close>:
  the two products are formed in \<open>double\<close> and converted to the \<open>int\<close> coordinates
  of a \<open>cv::Point\<close>.
\<close>

fun transformed_pt :: "image_t \<Rightarrow> polygon_t \<Rightarrow> error + (int \<times> int) list" where
  "transformed_pt img [] = Inr []"
| "transformed_pt img (pt # poly) =
     (case double_to_int
             (fp_mul binary64 (Finite (pt_x pt)) (Finite (real (img_width img - 1)))) of
        Inl e \<Rightarrow> Inl e
      | Inr px \<Rightarrow>
          (case double_to_int
                  (fp_mul binary64 (Finite (pt_y pt)) (Finite (real (img_height img - 1)))) of
             Inl e \<Rightarrow> Inl e
           | Inr py \<Rightarrow>
               (case transformed_pt img poly of
                  Inl e \<Rightarrow> Inl e
                | Inr pts \<Rightarrow> Inr ((px, py) # pts))))"

definition polygon_mask :: "fill_rule \<Rightarrow> (int \<times> int) list \<Rightarrow> mask_t" where
  "polygon_mask rule pts = fillPoly rule (\<lambda>y x. 0) [pts] 255"

subsection \<open>get_spectrum_polygon\<close>

text \<open>
  The innermost loop body: one channel of one pixel inside the mask. The index
  \<^verbatim>\<open>((y) * img._width + (x)) * img._channels + (z)\<close> is formed in \<open>int\<close>.
\<close>

definition add_channel ::
  "data_t \<Rightarrow> image_t \<Rightarrow> nat \<Rightarrow> nat \<Rightarrow> nat \<Rightarrow> fp list \<times> fp list \<Rightarrow> error + fp list \<times> fp list" where
  "add_channel dt img x y z = (\<lambda>(sum_v, sq_sum_v).
     case int_result (int ((y * img_width img + x) * img_channels img + z)) of
       Inl e \<Rightarrow> Inl e
     | Inr i \<Rightarrow>
         (case read_data img i of
            Inl e \<Rightarrow> Inl e
          | Inr loc_val \<Rightarrow>
              (case loc_val_squared dt loc_val of
                 Inl e \<Rightarrow> Inl e
               | Inr sq \<Rightarrow>
                   Inr (sum_v[z := plus_assign dt (sum_v ! z) (Finite loc_val)],
                        sq_sum_v[z := plus_assign dt (sq_sum_v ! z) sq]))))"

text \<open>The pixel loops: columns outside, rows inside, the counter \<open>n\<close> first in the state.\<close>

definition accumulate_pixels ::
  "data_t \<Rightarrow> image_t \<Rightarrow> mask_t \<Rightarrow> error + nat \<times> fp list \<times> fp list" where
  "accumulate_pixels dt img msk =
     for_loop [0..<img_width img] (\<lambda>x.
       for_loop [0..<img_height img] (\<lambda>y. \<lambda>(n, vs).
         if msk y x > 128 then
           (case for_loop [0..<img_channels img] (add_channel dt img x y) vs of
              Inl e \<Rightarrow> Inl e
            | Inr vs' \<Rightarrow> Inr (n + 1, vs'))
         else Inr (n, vs)))
       (0, replicate (img_channels img) (Finite 0), replicate (img_channels img) (Finite 0))"

text \<open>
  The result loop of the polygon case. With \<open>n = 0\<close> the quotient \<open>sum_v[z] / n\<close>
  is the floating-point quotient \<open>0 / 0\<close>, a NaN.
\<close>

definition polygon_result ::
  "image_t \<Rightarrow> nat \<times> fp list \<times> fp list \<Rightarrow> spectrum_t \<Rightarrow> error + spectrum_t" where
  "polygon_result img = (\<lambda>(n, sum_v, sq_sum_v).
     for_loop [0..<img_channels img] (\<lambda>z res.
       case read_wavelength img (int z) of
         Inl e \<Rightarrow> Inl e
       | Inr loc_wl \<Rightarrow>
           Inr (res[z := \<lparr>sm_wavelength = loc_wl,
                          sm_value = channel_mean_double (sum_v ! z) n,
                          sm_std = channel_std_double (sq_sum_v ! z) (sum_v ! z) n\<rparr>])))"

text \<open>
  The loop body of the single point case:
  \<^verbatim>\<open>int y_shift = std::round(poly.front()._y * (img._height - 1)) * img._width;\<close>
  \<^verbatim>\<open>int xy_shift = y_shift + std::round(poly.front()._x * (img._width - 1));\<close>
  \<^verbatim>\<open>double loc_val = img._data[xy_shift * img._channels + z];\<close>
\<close>

definition single_point_channel ::
  "image_t \<Rightarrow> point_t \<Rightarrow> nat \<Rightarrow> spectrum_t \<Rightarrow> error + spectrum_t" where
  "single_point_channel img front z res =
     (case double_to_int
             (fp_mul binary64
                (std_round_double
                   (fp_mul binary64 (Finite (pt_y front)) (Finite (real (img_height img - 1)))))
                (Finite (real (img_width img)))) of
        Inl e \<Rightarrow> Inl e
      | Inr y_shift \<Rightarrow>
          (case double_to_int
                  (fp_add binary64 (Finite (of_int y_shift))
                     (std_round_double
                        (fp_mul binary64 (Finite (pt_x front))
                           (Finite (real (img_width img - 1)))))) of
             Inl e \<Rightarrow> Inl e
           | Inr xy_shift \<Rightarrow>
               (case int_result (xy_shift * int (img_channels img)) of
                  Inl e \<Rightarrow> Inl e
                | Inr xyc \<Rightarrow>
                    (case int_result (xyc + int z) of
                       Inl e \<Rightarrow> Inl e
                     | Inr i \<Rightarrow>
                         (case read_data img i of
                            Inl e \<Rightarrow> Inl e
                          | Inr elem \<Rightarrow>
                              (case read_wavelength img (int z) of
                                 Inl e \<Rightarrow> Inl e
                               | Inr loc_wl \<Rightarrow>
                                   Inr (res[z := \<lparr>sm_wavelength = loc_wl,
                                                  sm_value = fp_round binary64 elem,
                                                  sm_std = Finite 0\<rparr>])))))))"

definition get_spectrum_polygon ::
  "fill_rule \<Rightarrow> data_t \<Rightarrow> image_t \<Rightarrow> polygon_t \<Rightarrow> error + spectrum_t" where
  "get_spectrum_polygon rule dt img poly =
     (if \<not> img_width img > 1 then Inl Assertion_Failed
      else if \<not> img_height img > 1 then Inl Assertion_Failed
      else if \<not> img_channels img > 0 then Inl Assertion_Failed
      else if img_wavelength img = None then Inl Assertion_Failed
      else
        (let res = replicate (img_channels img) spectral_mean_default in
         if length poly > 1 then
           (case transformed_pt img poly of
              Inl e \<Rightarrow> Inl e
            | Inr pts \<Rightarrow>
                (case accumulate_pixels dt img (polygon_mask rule pts) of
                   Inl e \<Rightarrow> Inl e
                 | Inr acc \<Rightarrow> polygon_result img acc res))
         else if length poly = 1 then
           (let front = hd poly in
            if pt_x front > 1 \<or> pt_x front < 0 \<or> pt_y front > 1 \<or> pt_y front < 0
            then Inr res
            else for_loop [0..<img_channels img] (single_point_channel img front) res)
         else Inr res))"

subsection \<open>Well-formed cubes and example data\<close>

text \<open>
  The four assertions that open \<open>get_spectrum_polygon\<close>, and the consistency of
  the two buffers with the dimensions (element \<open>(x, y, z)\<close> at index
  \<open>(y * W + x) * C + z\<close>, one wavelength per channel).
\<close>

definition preconditions :: "image_t \<Rightarrow> bool" where
  "preconditions img =
     (img_width img > 1 \<and> img_height img > 1 \<and> img_channels img > 0 \<and>
      img_wavelength img \<noteq> None)"

definition cube_buffers :: "image_t \<Rightarrow> bool" where
  "cube_buffers img =
     (length (img_data img) = img_width img * img_height img * img_channels img \<and>
      (case img_wavelength img of None \<Rightarrow> False | Some wl \<Rightarrow> length wl = img_channels img))"

text \<open>The element indices of the cube are \<open>int\<close>s.\<close>

definition int_indexed :: "image_t \<Rightarrow> bool" where
  "int_indexed img = (img_width img * img_height img * img_channels img < 2 ^ 31)"

definition uint8_t :: data_t where
  "uint8_t = \<lparr>is_floating_point = False, is_signed = False, sizeof = 1\<rparr>"

definition uint16_t :: data_t where
  "uint16_t = \<lparr>is_floating_point = False, is_signed = False, sizeof = 2\<rparr>"

definition int64_t :: data_t where
  "int64_t = \<lparr>is_floating_point = False, is_signed = True, sizeof = 8\<rparr>"


definition cube_2x2x2 :: image_t where
  "cube_2x2x2 = \<lparr>img_width = 2, img_height = 2, img_channels = 2,
     img_wavelength = Some [500, 510], img_data = [1, 2, 3, 4, 5, 6, 7, 8]\<rparr>"

text \<open>A fill rule that covers every pixel, whatever the contour.\<close>

definition fill_all :: fill_rule where
  "fill_all vpts x y = True"

subsection \<open>The pixels of a polygon\<close>

text \<open>
  Vocabulary for the statements about the polygon case: the value of channel \<open>z\<close>
  at a pixel (column first), the pixels the fill rule covers for a contour, in the
  order the loops visit them, and the condition that the square of every element
  can be formed in the element type.
\<close>

definition pixel_value :: "image_t \<Rightarrow> nat \<times> nat \<Rightarrow> nat \<Rightarrow> real" where
  "pixel_value img p z =
     img_data img ! ((snd p * img_width img + fst p) * img_channels img + z)"

definition covered_pixels :: "fill_rule \<Rightarrow> image_t \<Rightarrow> (int \<times> int) list \<Rightarrow> (nat \<times> nat) list" where
  "covered_pixels rule img pts =
     filter (\<lambda>p. rule [pts] (fst p) (snd p))
       (List.product [0..<img_width img] [0..<img_height img])"

definition inside_pixels :: "fill_rule \<Rightarrow> image_t \<Rightarrow> polygon_t \<Rightarrow> (nat \<times> nat) list" where
  "inside_pixels rule img poly =
     (case transformed_pt img poly of
        Inl e \<Rightarrow> []
      | Inr pts \<Rightarrow> covered_pixels rule img pts)"

definition squares_fit :: "data_t \<Rightarrow> image_t \<Rightarrow> bool" where
  "squares_fit dt img =
     list_all (\<lambda>v. case loc_val_squared dt v of Inl e \<Rightarrow> False | Inr sq \<Rightarrow> True) (img_data img)"

text \<open>
  The running sum and the running square sum of channel \<open>z\<close> after the pixels
  \<open>ps\<close>, added one by one in \<open>double\<close>, and the entry of the spectrum they give.
\<close>

definition square_of :: "data_t \<Rightarrow> real \<Rightarrow> fp" where
  "square_of dt v = (case loc_val_squared dt v of Inl e \<Rightarrow> NaN | Inr sq \<Rightarrow> sq)"

definition running_sum :: "data_t \<Rightarrow> image_t \<Rightarrow> (nat \<times> nat) list \<Rightarrow> nat \<Rightarrow> fp" where
  "running_sum dt img ps z =
     foldl (\<lambda>s p. plus_assign dt s (Finite (pixel_value img p z))) (Finite 0) ps"

definition running_square_sum :: "data_t \<Rightarrow> image_t \<Rightarrow> (nat \<times> nat) list \<Rightarrow> nat \<Rightarrow> fp" where
  "running_square_sum dt img ps z =
     foldl (\<lambda>s p. plus_assign dt s (square_of dt (pixel_value img p z))) (Finite 0) ps"

definition pixel_statistics ::
  "data_t \<Rightarrow> image_t \<Rightarrow> 32 word list \<Rightarrow> (nat \<times> nat) list \<Rightarrow> nat \<Rightarrow> spectral_mean_t" where
  "pixel_statistics dt img wl ps z =
     \<lparr>sm_wavelength = wl ! z,
      sm_value = channel_mean_double (running_sum dt img ps z) (length ps),
      sm_std = channel_std_double (running_square_sum dt img ps z) (running_sum dt img ps z)
                 (length ps)\<rparr>"

text \<open>The state of the pixel loops after the pixels \<open>ps\<close>, of which \<open>P\<close> holds inside.\<close>

definition sums_over ::
  "data_t \<Rightarrow> image_t \<Rightarrow> (nat \<times> nat \<Rightarrow> bool) \<Rightarrow> (nat \<times> nat) list \<Rightarrow> nat \<times> fp list \<times> fp list" where
  "sums_over dt img P ps =
     (length (filter P ps),
      map (running_sum dt img (filter P ps)) [0..<img_channels img],
      map (running_square_sum dt img (filter P ps)) [0..<img_channels img])"

text \<open>
  Example cubes: a 16-bit cube with one saturated element, a 4 by 4 cube, a cube of
  four columns, and a cube of 64-bit integers.
\<close>

definition cube_saturated :: image_t where
  "cube_saturated = \<lparr>img_width = 2, img_height = 2, img_channels = 1,
     img_wavelength = Some [500], img_data = [65535, 0, 0, 0]\<rparr>"

definition cube_4x4 :: image_t where
  "cube_4x4 = \<lparr>img_width = 4, img_height = 4, img_channels = 1,
     img_wavelength = Some [500], img_data = replicate 16 100\<rparr>"


definition cube_wide :: image_t where
  "cube_wide = \<lparr>img_width = 2, img_height = 2, img_channels = 1,
     img_wavelength = Some [500], img_data = [9007199254740993, 0, 0, 0]\<rparr>"


text \<open>A fill rule that covers the bounding box of the first contour.\<close>

definition fill_box :: fill_rule where
  "fill_box vpts x y =
     (case vpts of
        [] \<Rightarrow> False
      | pts # _ \<Rightarrow>
          (\<exists>p \<in> set pts. fst p \<le> int x) \<and> (\<exists>p \<in> set pts. int x \<le> fst p) \<and>
          (\<exists>p \<in> set pts. snd p \<le> int y) \<and> (\<exists>p \<in> set pts. int y \<le> snd p))"

subsection \<open>Histograms\<close>


text \<open>
  \<open>cuvis_processing_mode_t\<close> is an enumeration of the C SDK header; the code
  compares it with \<open>Cube_Reflectance\<close> only.
\<close>

datatype cuvis_processing_mode_t =
  Preview | Cube_Raw | Cube_DarkSubtract | Cube_Reflectance | Cube_SpectralRadiance









subsection \<open>get_histogram\<close>




subsection \<open>The samples of a wavelength bin\<close>











section \<open>Properties\<close>

subsection \<open>Rounding\<close>

lemma rhe_of_int: "round_half_even (of_int n) = n"
  by (simp add: round_half_even_def)

lemma rhe_bounds: "\<lfloor>x\<rfloor> \<le> round_half_even x" "round_half_even x \<le> \<lfloor>x\<rfloor> + 1"
  by (simp_all add: round_half_even_def Let_def)

lemma rhe_mono:
  assumes "x \<le> y"
  shows "round_half_even x \<le> round_half_even y"
proof (cases "\<lfloor>x\<rfloor> = \<lfloor>y\<rfloor>")
  case True
  then have "x - of_int \<lfloor>x\<rfloor> \<le> y - of_int \<lfloor>y\<rfloor>" using assms by simp
  then show ?thesis using True unfolding round_half_even_def Let_def by auto
next
  case False
  have "\<lfloor>x\<rfloor> \<le> \<lfloor>y\<rfloor>" using assms by (rule floor_mono)
  then have "\<lfloor>x\<rfloor> + 1 \<le> \<lfloor>y\<rfloor>" using False by simp
  then show ?thesis using rhe_bounds(2)[of x] rhe_bounds(1)[of y] by linarith
qed

lemma rhe_le_int: "x \<le> of_int n \<Longrightarrow> round_half_even x \<le> n"
  using rhe_mono[of x "of_int n"] by (simp add: rhe_of_int)

lemma rhe_ge_int: "of_int n \<le> x \<Longrightarrow> n \<le> round_half_even x"
  using rhe_mono[of "of_int n" x] by (simp add: rhe_of_int)

lemma rhe_error: "\<bar>of_int (round_half_even x) - x\<bar> \<le> 1 / 2"
  unfolding round_half_even_def Let_def
  by (auto simp: abs_if) linarith+

lemma rhe_minus: "round_half_even (- x) = - round_half_even x"
proof (cases "x = of_int \<lfloor>x\<rfloor>")
  case True
  then have "- x = of_int (- \<lfloor>x\<rfloor>)" by simp
  then have "round_half_even (- x) = - \<lfloor>x\<rfloor>" by (simp only: rhe_of_int)
  moreover have "round_half_even x = \<lfloor>x\<rfloor>" using True rhe_of_int[of "\<lfloor>x\<rfloor>"] by simp
  ultimately show ?thesis by simp
next
  case False
  then have lt: "of_int \<lfloor>x\<rfloor> < x" using of_int_floor_le[of x] by linarith
  have fl: "\<lfloor>- x\<rfloor> = - \<lfloor>x\<rfloor> - 1"
    using lt by (intro floor_unique) (simp_all, linarith)
  show ?thesis
    unfolding round_half_even_def Let_def fl
    using lt by (auto simp: algebra_simps)
qed


lemma two_powr_powi: "(2::real) powr real_of_int n = 2 powi n"
  by (rule powr_real_of_int') simp_all

lemma exponent_bounds:
  assumes "x \<noteq> 0"
  shows "2 powi \<lfloor>log 2 \<bar>x\<bar>\<rfloor> \<le> \<bar>x\<bar>" "\<bar>x\<bar> < 2 powi (\<lfloor>log 2 \<bar>x\<bar>\<rfloor> + 1)"
proof -
  have pos: "0 < \<bar>x\<bar>" using assms by simp
  have "2 powr real_of_int \<lfloor>log 2 \<bar>x\<bar>\<rfloor> \<le> \<bar>x\<bar> \<and> \<bar>x\<bar> < 2 powr real_of_int (\<lfloor>log 2 \<bar>x\<bar>\<rfloor> + 1)"
    using floor_log_eq_powr_iff[OF pos, of 2 "\<lfloor>log 2 \<bar>x\<bar>\<rfloor>"] by simp
  then show "2 powi \<lfloor>log 2 \<bar>x\<bar>\<rfloor> \<le> \<bar>x\<bar>" "\<bar>x\<bar> < 2 powi (\<lfloor>log 2 \<bar>x\<bar>\<rfloor> + 1)"
    by (simp_all only: two_powr_powi)
qed

lemma exponent_unique:
  assumes "2 powi e \<le> \<bar>x\<bar>" "\<bar>x\<bar> < 2 powi (e + 1)"
  shows "\<lfloor>log 2 \<bar>x\<bar>\<rfloor> = e"
proof -
  have "0 < (2::real) powi e" by simp
  then have pos: "0 < \<bar>x\<bar>" using assms(1) by linarith
  have "2 powr real_of_int e \<le> \<bar>x\<bar> \<and> \<bar>x\<bar> < 2 powr real_of_int (e + 1)"
    using assms by (simp only: two_powr_powi)
  then show ?thesis
    using floor_log_eq_powr_iff[OF pos, of 2 e] by simp
qed

lemma quantum_pos: "0 < quantum f x"
  by (simp add: quantum_def)

lemma quantum_minus: "quantum f (- x) = quantum f x"
  by (simp add: quantum_def)

lemma round_nearest_minus: "round_nearest f (- x) = - round_nearest f x"
  by (simp add: round_nearest_def quantum_minus rhe_minus)

lemma round_nearest_0: "round_nearest f 0 = 0"
  by (simp add: round_nearest_def)

lemma round_nearest_nonneg:
  assumes "0 \<le> x"
  shows "0 \<le> round_nearest f x"
proof (cases "x = 0")
  case True
  then show ?thesis by (simp add: round_nearest_def)
next
  case False
  have "(of_int 0 :: real) \<le> x / quantum f x" using assms quantum_pos[of f x] by simp
  then have "0 \<le> round_half_even (x / quantum f x)" by (rule rhe_ge_int)
  then show ?thesis using False quantum_pos[of f x] by (simp add: round_nearest_def)
qed

lemma powi_quotient: "(2::real) powi a / 2 powi b = 2 powi (a - b)"
  by (simp add: power_int_diff)

lemma powi_product: "(2::real) powi a * 2 powi b = 2 powi (a + b)"
  by (simp add: power_int_add)

lemma powi_pos: "0 < (2::real) powi a"
  by simp

lemma powi_less_exp: "(2::real) powi a < 2 powi b \<Longrightarrow> a < b"
proof (rule ccontr)
  assume l: "(2::real) powi a < 2 powi b" and "\<not> a < b"
  then have "b \<le> a" by simp
  then have "(2::real) powi b \<le> 2 powi a" by (rule power_int_increasing) simp
  with l show False by linarith
qed

text \<open>A positive number rounds into the closure of its binade.\<close>

lemma round_nearest_upper:
  assumes "0 < x"
  shows "round_nearest f x \<le> 2 powi (max \<lfloor>log 2 \<bar>x\<bar>\<rfloor> (e_min f) + 1)"
proof -
  define e where "e = max \<lfloor>log 2 \<bar>x\<bar>\<rfloor> (e_min f)"
  define q where "q = quantum f x"
  have q: "q = 2 powi (e - (int (prec f) - 1))" by (simp add: q_def quantum_def e_def)
  have qpos: "0 < q" by (simp add: q)
  have "\<bar>x\<bar> < 2 powi (\<lfloor>log 2 \<bar>x\<bar>\<rfloor> + 1)" using assms exponent_bounds(2)[of x] by simp
  also have "\<dots> \<le> 2 powi (e + 1)" by (rule power_int_increasing) (simp_all add: e_def)
  finally have "x < 2 powi (e + 1)" using assms by simp
  then have "x / q < 2 powi (e + 1) / q" using qpos by (simp add: divide_strict_right_mono)
  also have "2 powi (e + 1) / q = 2 powi (int (prec f))" by (simp add: q powi_quotient)
  also have "\<dots> = of_int (2 ^ prec f)" by simp
  finally have "round_half_even (x / q) \<le> 2 ^ prec f" by (intro rhe_le_int) simp
  then have "real_of_int (round_half_even (x / q)) \<le> of_int (2 ^ prec f)" by (simp only: of_int_le_iff)
  then have "q * of_int (round_half_even (x / q)) \<le> q * of_int (2 ^ prec f)"
    using qpos by (simp add: mult_left_mono)
  also have "q * of_int (2 ^ prec f) = q * 2 powi (int (prec f))" by simp
  also have "\<dots> = 2 powi (e - (int (prec f) - 1) + int (prec f))" unfolding q by (rule powi_product)
  also have "e - (int (prec f) - 1) + int (prec f) = e + 1" by simp
  finally show ?thesis using assms by (simp add: round_nearest_def q_def e_def)
qed

lemma round_nearest_lower:
  assumes "0 < x" and "e_min f \<le> \<lfloor>log 2 \<bar>x\<bar>\<rfloor>" and "0 < prec f"
  shows "2 powi \<lfloor>log 2 \<bar>x\<bar>\<rfloor> \<le> round_nearest f x"
proof -
  define e where "e = \<lfloor>log 2 \<bar>x\<bar>\<rfloor>"
  define q where "q = quantum f x"
  have q: "q = 2 powi (e - (int (prec f) - 1))" using assms(2) by (simp add: q_def quantum_def e_def max_def)
  have qpos: "0 < q" by (simp add: q)
  have "2 powi e \<le> x" using assms(1) exponent_bounds(1)[of x] by (simp add: e_def)
  then have "2 powi e / q \<le> x / q" using qpos by (simp add: divide_right_mono)
  moreover have "2 powi e / q = 2 powi (int (prec f - 1))"
    using assms(3) by (simp add: q powi_quotient of_nat_diff)
  moreover have "(2::real) powi (int (prec f - 1)) = of_int (2 ^ (prec f - 1))" by simp
  ultimately have "of_int (2 ^ (prec f - 1)) \<le> x / q" by simp
  then have "2 ^ (prec f - 1) \<le> round_half_even (x / q)" by (rule rhe_ge_int)
  then have "real_of_int (2 ^ (prec f - 1)) \<le> of_int (round_half_even (x / q))" by (simp only: of_int_le_iff)
  then have "q * of_int (2 ^ (prec f - 1)) \<le> q * of_int (round_half_even (x / q))"
    using qpos by (simp add: mult_left_mono)
  moreover have "q * of_int (2 ^ (prec f - 1)) = q * 2 powi (int (prec f - 1))" by simp
  moreover have "q * 2 powi (int (prec f - 1)) = 2 powi e"
  proof -
    have "q * 2 powi (int (prec f - 1)) = 2 powi (e - (int (prec f) - 1) + int (prec f - 1))"
      unfolding q by (rule powi_product)
    moreover have "e - (int (prec f) - 1) + int (prec f - 1) = e" using assms(3) by (simp add: of_nat_diff)
    ultimately show ?thesis by simp
  qed
  ultimately show ?thesis using assms(1) by (simp add: round_nearest_def q_def e_def)
qed

lemma round_nearest_mono_pos:
  assumes "0 < x" "x \<le> y" "0 < prec f"
  shows "round_nearest f x \<le> round_nearest f y"
proof -
  define ex where "ex = max \<lfloor>log 2 \<bar>x\<bar>\<rfloor> (e_min f)"
  define ey where "ey = max \<lfloor>log 2 \<bar>y\<bar>\<rfloor> (e_min f)"
  have ypos: "0 < y" using assms by simp
  have "log 2 \<bar>x\<bar> \<le> log 2 \<bar>y\<bar>" using assms by simp
  then have fl: "\<lfloor>log 2 \<bar>x\<bar>\<rfloor> \<le> \<lfloor>log 2 \<bar>y\<bar>\<rfloor>" by (rule floor_mono)
  then have le: "ex \<le> ey" by (simp add: ex_def ey_def)
  show ?thesis
  proof (cases "ex = ey")
    case True
    then have q: "quantum f x = quantum f y" by (simp add: quantum_def ex_def ey_def)
    have "x / quantum f y \<le> y / quantum f y"
      using assms(2) quantum_pos[of f y] by (simp add: divide_right_mono)
    then have "round_half_even (x / quantum f y) \<le> round_half_even (y / quantum f y)"
      by (rule rhe_mono)
    then have "quantum f y * of_int (round_half_even (x / quantum f y))
        \<le> quantum f y * of_int (round_half_even (y / quantum f y))"
      using quantum_pos[of f y] by (simp add: mult_left_mono)
    then show ?thesis using assms(1) ypos by (simp add: round_nearest_def q)
  next
    case False
    then have lt: "ex + 1 \<le> ey" using le by simp
    have "e_min f \<le> ex" by (simp add: ex_def)
    then have "e_min f < ey" using lt by simp
    then have ey: "ey = \<lfloor>log 2 \<bar>y\<bar>\<rfloor>" "e_min f \<le> \<lfloor>log 2 \<bar>y\<bar>\<rfloor>" by (simp_all add: ey_def max_def split: if_splits)
    have "round_nearest f x \<le> 2 powi (ex + 1)"
      unfolding ex_def using assms(1) by (rule round_nearest_upper)
    also have "\<dots> \<le> 2 powi ey" by (rule power_int_increasing) (use lt in simp_all)
    also have "\<dots> \<le> round_nearest f y"
      unfolding ey(1) using ypos ey(2) assms(3) by (rule round_nearest_lower)
    finally show ?thesis .
  qed
qed

lemma round_nearest_mono:
  assumes "x \<le> y" "0 < prec f"
  shows "round_nearest f x \<le> round_nearest f y"
proof -
  consider "0 < x" | "x = 0" | "x < 0" "0 \<le> y" | "x < 0" "y < 0" by linarith
  then show ?thesis
  proof cases
    case 1
    then show ?thesis using assms by (intro round_nearest_mono_pos)
  next
    case 2
    then show ?thesis using assms(1) round_nearest_nonneg[of y f] by (simp add: round_nearest_0)
  next
    case 3
    have "0 \<le> round_nearest f (- x)" using 3(1) by (intro round_nearest_nonneg) simp
    then have "round_nearest f x \<le> 0" by (simp add: round_nearest_minus)
    moreover have "0 \<le> round_nearest f y" using 3(2) by (rule round_nearest_nonneg)
    ultimately show ?thesis by linarith
  next
    case 4
    have "round_nearest f (- y) \<le> round_nearest f (- x)"
      using 4 assms by (intro round_nearest_mono_pos) simp_all
    then show ?thesis by (simp add: round_nearest_minus)
  qed
qed

text \<open>Numbers of the format are left unchanged.\<close>

lemma round_nearest_exact:
  assumes x: "x = of_int m * 2 powi j" and m: "\<bar>m\<bar> \<le> 2 ^ prec f"
    and j: "e_min f - int (prec f) + 1 \<le> j" and p: "0 < prec f"
  shows "round_nearest f x = x"
proof (cases "x = 0")
  case True
  then show ?thesis by (simp add: round_nearest_def)
next
  case False
  define e where "e = \<lfloor>log 2 \<bar>x\<bar>\<rfloor>"
  define qe where "qe = max e (e_min f) - (int (prec f) - 1)"
  have q: "quantum f x = 2 powi qe" by (simp add: quantum_def qe_def e_def)
  have ax: "\<bar>x\<bar> = of_int \<bar>m\<bar> * 2 powi j" by (simp add: x abs_mult)
  have lo: "2 powi e \<le> \<bar>x\<bar>" unfolding e_def using False by (rule exponent_bounds)
  have int_mult: "\<exists>k. x / 2 powi qe = of_int k"
  proof (cases "\<bar>m\<bar> = 2 ^ prec f")
    case True
    then have "\<bar>x\<bar> = 2 powi (int (prec f) + j)"
      by (simp add: ax power_int_add)
    then have "2 powi (int (prec f) + j) \<le> \<bar>x\<bar>" "\<bar>x\<bar> < 2 powi (int (prec f) + j + 1)"
      by (simp_all add: power_int_add)
    then have e: "e = int (prec f) + j" unfolding e_def by (rule exponent_unique)
    then have "e_min f \<le> e" using j by simp
    then have qe: "qe = j + 1" by (simp add: qe_def e max_def)
    have "x / 2 powi qe = of_int m * (2 powi j / 2 powi (j + 1))" by (simp add: x qe)
    also have "2 powi j / 2 powi (j + 1) = (2::real) powi (- 1)" by (simp only: powi_quotient) simp
    finally have "x / 2 powi qe = of_int m / 2" by simp
    moreover have "even m" using True p
      by (metis abs_numeral dvd_abs_iff dvd_power power_abs)
    ultimately show ?thesis by (metis of_int_divide_in_Ints Ints_cases of_int_numeral)
  next
    case False
    then have "\<bar>m\<bar> < 2 ^ prec f" using m by simp
    then have "real_of_int \<bar>m\<bar> < 2 ^ prec f" by (metis of_int_less_iff of_int_numeral of_int_power)
    then have "\<bar>x\<bar> < 2 ^ prec f * 2 powi j" by (simp add: ax)
    also have "\<dots> = 2 powi (int (prec f) + j)" by (simp add: power_int_add)
    finally have "2 powi e < (2::real) powi (int (prec f) + j)" using lo by linarith
    then have "e < int (prec f) + j" by (rule powi_less_exp)
    then have "qe \<le> j" using j by (simp add: qe_def max_def)
    then obtain d where d: "j = qe + int d" by (metis zle_iff_zadd)
    have "x / 2 powi qe = of_int m * (2 powi j / 2 powi qe)" by (simp add: x)
    also have "2 powi j / 2 powi qe = (2::real) ^ d" by (simp only: powi_quotient) (simp add: d)
    finally have "x / 2 powi qe = of_int (m * 2 ^ d)" by simp
    then show ?thesis by blast
  qed
  then obtain k where k: "x / 2 powi qe = of_int k" by blast
  then have "round_half_even (x / 2 powi qe) = k" by (simp only: rhe_of_int)
  then have "round_nearest f x = 2 powi qe * (x / 2 powi qe)"
    using \<open>x \<noteq> 0\<close> by (simp add: round_nearest_def q k)
  then show ?thesis by simp
qed

lemma round_nearest_of_int:
  assumes "\<bar>m\<bar> \<le> 2 ^ prec f" "e_min f < int (prec f)" "0 < prec f"
  shows "round_nearest f (of_int m) = of_int m"
  using round_nearest_exact[of "of_int m" m 0 f] assms by simp

text \<open>Evaluation with the exponent at hand.\<close>

lemma round_nearest_eval:
  assumes "2 powi e \<le> \<bar>x\<bar>" "\<bar>x\<bar> < 2 powi (e + 1)"
  shows "round_nearest f x =
     2 powi (max e (e_min f) - (int (prec f) - 1)) *
       of_int (round_half_even (x / 2 powi (max e (e_min f) - (int (prec f) - 1))))"
proof -
  have e: "\<lfloor>log 2 \<bar>x\<bar>\<rfloor> = e" using assms by (rule exponent_unique)
  have "x \<noteq> 0"
  proof
    assume "x = 0"
    with assms(1) have "(2::real) powi e \<le> 0" by simp
    with powi_pos[of e] show False by linarith
  qed
  then show ?thesis by (simp add: round_nearest_def quantum_def e)
qed

lemma fp_round_finite:
  "\<bar>round_nearest f x\<bar> < 2 powi (e_max f + 1) \<Longrightarrow> fp_round f x = Finite (round_nearest f x)"
  by (simp add: fp_round_def Let_def abs_less_iff)

lemma round_nearest_abs_le:
  assumes "\<bar>x\<bar> \<le> B" "round_nearest f B = B" "0 < prec f"
  shows "\<bar>round_nearest f x\<bar> \<le> B"
proof -
  have "round_nearest f x \<le> round_nearest f B"
    using assms(1,3) by (intro round_nearest_mono) simp_all
  moreover have "round_nearest f (- B) \<le> round_nearest f x"
    using assms(1,3) by (intro round_nearest_mono) simp_all
  ultimately show ?thesis using assms(2) by (simp add: round_nearest_minus abs_le_iff)
qed

lemma fp_round_exact:
  assumes "x = of_int m * 2 powi j" "\<bar>m\<bar> \<le> 2 ^ prec f"
    and "e_min f - int (prec f) + 1 \<le> j" "0 < prec f" "\<bar>x\<bar> < 2 powi (e_max f + 1)"
  shows "fp_round f x = Finite x"
  using round_nearest_exact[OF assms(1-4)] assms(5) by (simp add: fp_round_finite)

lemma double_of_int:
  assumes "\<bar>m\<bar> \<le> 2 ^ 53"
  shows "fp_round binary64 (of_int m) = Finite (of_int m)"
proof -
  have "real_of_int \<bar>m\<bar> \<le> 2 ^ 53" using assms by (metis of_int_le_iff of_int_numeral of_int_power)
  then have "\<bar>real_of_int m\<bar> < 2 powi (e_max binary64 + 1)" by (simp add: binary64_def)
  then show ?thesis
    using fp_round_exact[of "of_int m" m 0 binary64] assms by (simp add: binary64_def)
qed


lemma double_numeral:
  "(numeral k :: int) \<le> 2 ^ 53 \<Longrightarrow> fp_round binary64 (numeral k) = Finite (numeral k)"
  using double_of_int[of "numeral k"] by simp

lemma double_neg_numeral:
  "(numeral k :: int) \<le> 2 ^ 53 \<Longrightarrow> fp_round binary64 (- numeral k) = Finite (- numeral k)"
  using double_of_int[of "- numeral k"] by simp

lemma double_0: "fp_round binary64 0 = Finite 0"
  using double_of_int[of 0] by simp

lemma double_1: "fp_round binary64 1 = Finite 1"
  using double_of_int[of 1] by simp

lemmas double_exact = double_0 double_1 double_numeral double_neg_numeral

subsection \<open>The type mapper\<close>

text \<open>
  Claim C7. \<open>get_mat_datatype\<close> throws \<open>std::invalid_argument\<close> exactly when the
  channel count is below 1 or above 511, or when the byte width is not supported for
  the category of the element type (unsigned integer: 1 or 2 bytes; signed integer:
  1, 2 or 4 bytes; floating point: 2, 4 or 8 bytes). For every other combination it
  returns a type code, and it fails in no other way.
\<close>

theorem get_mat_datatype_fails_exactly:
  "((\<exists>m. get_mat_datatype dt c = Inl (Invalid_Argument m)) =
      (c < 1 \<or> 511 < c \<or>
        (if is_floating_point dt then sizeof dt \<notin> {2, 4, 8}
         else if is_signed dt then sizeof dt \<notin> {1, 2, 4}
         else sizeof dt \<notin> {1, 2}))) \<and>
   ((\<exists>d. get_mat_datatype dt c = Inr d) =
      (1 \<le> c \<and> c \<le> 511 \<and>
        (if is_floating_point dt then sizeof dt \<in> {2, 4, 8}
         else if is_signed dt then sizeof dt \<in> {1, 2, 4}
         else sizeof dt \<in> {1, 2}))) \<and>
   (\<forall>e. get_mat_datatype dt c = Inl e \<longrightarrow> (\<exists>m. e = Invalid_Argument m))"
  by (auto simp: get_mat_datatype_def)

theorem get_mat_datatype_fails_exactly_witness:
  "(\<exists>d. get_mat_datatype uint16_t 3 = Inr d) \<and>
   (\<exists>m. get_mat_datatype uint16_t 512 = Inl (Invalid_Argument m)) \<and>
   (\<exists>m. get_mat_datatype \<lparr>is_floating_point = False, is_signed = False, sizeof = 4\<rparr> 3
      = Inl (Invalid_Argument m))"
  using get_mat_datatype_fails_exactly[of uint16_t 3]
    get_mat_datatype_fails_exactly[of uint16_t 512]
    get_mat_datatype_fails_exactly[of "\<lparr>is_floating_point = False, is_signed = False, sizeof = 4\<rparr>" 3]
  by (simp add: uint16_t_def)

subsection \<open>The single-pass standard deviation\<close>

text \<open>
  Claim C6. Over the reals, for every non-empty multiset of samples with mean
  \<open>m = sum x / n\<close>, the expression the code evaluates,
  \<open>sqrt ((sum (x * x) - 2 * sum x * m) / n + m * m)\<close>, is the population standard
  deviation \<open>sqrt (sum ((x - m)\<^sup>2) / n)\<close>.
\<close>

theorem single_pass_std_is_population_std:
  assumes "M \<noteq> {#}"
  shows "channel_std (\<Sum>x\<in>#M. x * x) (\<Sum>x\<in>#M. x) (size M) =
     sqrt ((\<Sum>x\<in>#M. (x - (\<Sum>x\<in>#M. x) / real (size M))\<^sup>2) / real (size M))"
proof -
  define n where "n = real (size M)"
  define m where "m = (\<Sum>x\<in>#M. x) / n"
  have npos: "n > 0" using assms by (simp add: n_def nonempty_has_size)
  have "(\<Sum>x\<in>#M. (x - m)\<^sup>2) = (\<Sum>x\<in>#M. x * x) - 2 * m * (\<Sum>x\<in>#M. x) + n * m * m" for m
    unfolding n_def by (induction M) (simp_all add: power2_eq_square algebra_simps)
  then have "(\<Sum>x\<in>#M. (x - m)\<^sup>2) / n = ((\<Sum>x\<in>#M. x * x) - 2 * (\<Sum>x\<in>#M. x) * m) / n + m * m"
    using npos by (simp add: field_simps)
  then show ?thesis
    by (simp add: channel_std_def channel_mean_def Let_def n_def m_def)
qed

theorem single_pass_std_is_population_std_witness:
  "{#1, 3 :: real#} \<noteq> {#} \<and>
   channel_std (\<Sum>x\<in>#{#1, 3#}. x * x) (\<Sum>x\<in>#{#1, 3#}. x) (size {#1, 3 :: real#}) = 1"
  using single_pass_std_is_population_std[of "{#1, 3#}"] by simp

subsection \<open>The sentinel spectrum\<close>

text \<open>
  Claim C4. For a cube that passes the assertions, the empty polygon and a single
  point with a coordinate outside \<open>[0, 1]\<close> give the same result without an error:
  a spectrum of length \<open>C\<close> whose entries all have value \<open>-999\<close> and standard
  deviation \<open>0\<close>.
\<close>

theorem sentinel_for_empty_and_outside:
  assumes "preconditions img"
    and "pt_x p > 1 \<or> pt_x p < 0 \<or> pt_y p > 1 \<or> pt_y p < 0"
  shows "\<exists>s. get_spectrum_polygon rule dt img [] = Inr s \<and>
             get_spectrum_polygon rule dt img [p] = Inr s \<and>
             length s = img_channels img \<and>
             (\<forall>z < img_channels img.
                sm_value (s ! z) = Finite (- 999) \<and> sm_std (s ! z) = Finite 0)"
proof -
  let ?s = "replicate (img_channels img) spectral_mean_default"
  have "get_spectrum_polygon rule dt img [] = Inr ?s"
    using assms(1) by (simp add: get_spectrum_polygon_def preconditions_def)
  moreover have "get_spectrum_polygon rule dt img [p] = Inr ?s"
    using assms by (simp add: get_spectrum_polygon_def preconditions_def)
  moreover have "\<forall>z < img_channels img.
      sm_value (?s ! z) = Finite (- 999) \<and> sm_std (?s ! z) = Finite 0"
    by (simp add: spectral_mean_default_def)
  ultimately show ?thesis by (intro exI[of _ ?s]) simp
qed

theorem sentinel_for_empty_and_outside_witness:
  "get_spectrum_polygon fill_all uint8_t cube_2x2x2 [] =
     Inr [\<lparr>sm_wavelength = 0, sm_value = Finite (- 999), sm_std = Finite 0\<rparr>,
          \<lparr>sm_wavelength = 0, sm_value = Finite (- 999), sm_std = Finite 0\<rparr>] \<and>
   get_spectrum_polygon fill_all uint8_t cube_2x2x2 [\<lparr>pt_x = 3 / 2, pt_y = 1 / 2\<rparr>] =
     get_spectrum_polygon fill_all uint8_t cube_2x2x2 []"
proof -
  have pre: "preconditions cube_2x2x2"
    by (simp add: preconditions_def cube_2x2x2_def)
  have out: "pt_x \<lparr>pt_x = 3 / 2, pt_y = 1 / 2\<rparr> > 1 \<or> pt_x \<lparr>pt_x = 3 / 2, pt_y = 1 / 2\<rparr> < 0 \<or>
     pt_y \<lparr>pt_x = 3 / 2, pt_y = 1 / 2\<rparr> > 1 \<or> pt_y \<lparr>pt_x = 3 / 2, pt_y = 1 / 2\<rparr> < (0::real)"
    by simp
  from sentinel_for_empty_and_outside[OF pre out, of fill_all uint8_t]
  obtain s where s: "get_spectrum_polygon fill_all uint8_t cube_2x2x2 [] = Inr s"
    "get_spectrum_polygon fill_all uint8_t cube_2x2x2 [\<lparr>pt_x = 3 / 2, pt_y = 1 / 2\<rparr>] = Inr s"
    by blast
  have "get_spectrum_polygon fill_all uint8_t cube_2x2x2 [] =
     Inr [\<lparr>sm_wavelength = 0, sm_value = Finite (- 999), sm_std = Finite 0\<rparr>,
          \<lparr>sm_wavelength = 0, sm_value = Finite (- 999), sm_std = Finite 0\<rparr>]"
    by (simp add: get_spectrum_polygon_def cube_2x2x2_def spectral_mean_default_def numeral_2_eq_2)
  with s show ?thesis by simp
qed

subsection \<open>The single point case\<close>

lemma for_loop_updates:
  assumes "\<And>z res. z \<in> set zs \<Longrightarrow> body z res = Inr (res[z := f z])"
  shows "for_loop zs body res = Inr (fold (\<lambda>z r. r[z := f z]) zs res)"
  using assms by (induction zs arbitrary: res) simp_all

lemma fold_updates_length:
  "length (fold (\<lambda>z r. r[z := f z]) zs res) = length res"
  by (induction zs arbitrary: res) simp_all

lemma fold_updates_nth:
  "z < n \<Longrightarrow> n \<le> length res \<Longrightarrow> fold (\<lambda>z r. r[z := f z]) [0..<n] res ! z = f z"
proof (induction n)
  case 0
  then show ?case by simp
next
  case (Suc n)
  show ?case
  proof (cases "z = n")
    case True
    with Suc.prems show ?thesis by (simp add: fold_updates_length)
  next
    case False
    with Suc show ?thesis by simp
  qed
qed




lemma int_result_ok: "- 2147483648 \<le> i \<Longrightarrow> i < 2147483648 \<Longrightarrow> int_result i = Inr i"
  by (simp add: int_result_def)

lemma read_data_nat:
  "i < length (img_data img) \<Longrightarrow> read_data img (int i) = Inr (img_data img ! i)"
  by (simp add: read_data_def)

lemma int_result_nat: "n < 2147483648 \<Longrightarrow> int_result (int n) = Inr (int n)"
  by (simp add: int_result_def)



lemma pixel_index_in_buffer:
  assumes "x < W" "y < H" "z < C"
  shows "(y * W + x) * C + z < W * H * (C::nat)"
proof -
  obtain H' where H': "H = Suc H'" using assms(2) by (cases H) simp_all
  have "y * W \<le> H' * W" using assms(2) H' by (simp add: mult_le_mono1)
  then have "y * W + x < H' * W + W" using assms(1) by linarith
  then have "Suc (y * W + x) \<le> W * H" by (simp add: H' mult.commute)
  then have "Suc (y * W + x) * C \<le> (W * H) * C" by (rule mult_le_mono1)
  then show ?thesis using assms(3) by simp
qed









text \<open>
  An element of 64 bits that is no \<open>double\<close>: the value is the \<open>double\<close> nearest
  to it.
\<close>

lemma double_wide: "fp_round binary64 9007199254740993 = Finite 9007199254740992"
proof -
  have "round_nearest binary64 9007199254740993 = 9007199254740992"
    using round_nearest_eval[of 53 9007199254740993 binary64]
    by (simp add: binary64_def round_half_even_def)
  then show ?thesis by (simp add: fp_round_def binary64_def)
qed

lemma wide_elements_are_rounded:
  "get_spectrum_polygon fill_all int64_t cube_wide [\<lparr>pt_x = 0, pt_y = 0\<rparr>] =
     Inr [\<lparr>sm_wavelength = 500, sm_value = Finite 9007199254740992, sm_std = Finite 0\<rparr>] \<and>
   img_data cube_wide ! 0 = 9007199254740993"
  by (simp add: get_spectrum_polygon_def cube_wide_def single_point_channel_def
      double_wide double_exact std_round_def truncate_toward_zero_def int_result_def
      read_data_def read_wavelength_def spectral_mean_default_def)

subsection \<open>The polygon case\<close>

text \<open>The pixel loops compute the running sums over the covered pixels.\<close>

lemma for_loop_trace:
  assumes "\<And>i d. i \<in> set todo \<Longrightarrow> body i (g d) = Inr (g (d @ [i]))"
  shows "for_loop todo body (g done) = Inr (g (done @ todo))"
  using assms
proof (induction todo arbitrary: "done")
  case Nil
  then show ?case by simp
next
  case (Cons i todo)
  have "body i (g done) = Inr (g (done @ [i]))" using Cons.prems by simp
  moreover have "for_loop todo body (g (done @ [i])) = Inr (g ((done @ [i]) @ todo))"
    using Cons.prems by (intro Cons.IH) simp
  ultimately show ?case by simp
qed

lemma for_loop_pair_updates:
  assumes "\<And>z sv sq. z \<in> set zs \<Longrightarrow>
     body z (sv, sq) = Inr (sv[z := a z (sv ! z)], sq[z := b z (sq ! z)])"
  shows "for_loop zs body (sv, sq) =
     Inr (fold (\<lambda>z r. r[z := a z (r ! z)]) zs sv, fold (\<lambda>z r. r[z := b z (r ! z)]) zs sq)"
  using assms by (induction zs arbitrary: sv sq) simp_all

lemma fold_apply_length:
  "length (fold (\<lambda>z r. r[z := a z (r ! z)]) zs r) = length r"
  by (induction zs arbitrary: r) simp_all

lemma fold_apply_nth:
  "n \<le> length r \<Longrightarrow> z < length r \<Longrightarrow>
   fold (\<lambda>z r. r[z := a z (r ! z)]) [0..<n] r ! z = (if z < n then a z (r ! z) else r ! z)"
proof (induction n)
  case 0
  then show ?case by simp
next
  case (Suc n)
  then show ?case by (cases "z = n") (simp_all add: fold_apply_length)
qed

lemma fold_apply_all:
  "fold (\<lambda>z r. r[z := a z (r ! z)]) [0..<length r] r = map (\<lambda>z. a z (r ! z)) [0..<length r]"
  by (rule nth_equalityI) (simp_all add: fold_apply_length fold_apply_nth)

lemma product_snoc:
  "List.product (xs @ [x]) ys = List.product xs ys @ map (Pair x) ys"
  by (induction xs) simp_all

lemma polygon_mask_inside:
  "(polygon_mask rule pts y x > 128) = rule [pts] x y"
  by (simp add: polygon_mask_def fillPoly_def)

lemma squares_fitD:
  "squares_fit dt img \<Longrightarrow> i < length (img_data img) \<Longrightarrow>
   loc_val_squared dt (img_data img ! i) = Inr (square_of dt (img_data img ! i))"
  by (auto simp: squares_fit_def list_all_length square_of_def split: sum.splits)

lemma channel_loop:
  assumes buf: "cube_buffers img" and sq: "squares_fit dt img" and ints: "int_indexed img"
    and x: "x < img_width img" and y: "y < img_height img"
    and len: "length sv = img_channels img" "length sq = img_channels img"
  shows "for_loop [0..<img_channels img] (add_channel dt img x y) (sv, sq) =
     Inr (map (\<lambda>z. plus_assign dt (sv ! z) (Finite (pixel_value img (x, y) z)))
            [0..<img_channels img],
          map (\<lambda>z. plus_assign dt (sq ! z) (square_of dt (pixel_value img (x, y) z)))
            [0..<img_channels img])"
proof -
  have step: "add_channel dt img x y z (sv, sq) =
      Inr (sv[z := plus_assign dt (sv ! z) (Finite (pixel_value img (x, y) z))],
           sq[z := plus_assign dt (sq ! z) (square_of dt (pixel_value img (x, y) z))])"
    if "z \<in> set [0..<img_channels img]" for z sv sq
  proof -
    have z: "z < img_channels img" using that by simp
    define i where "i = (y * img_width img + x) * img_channels img + z"
    have il: "i < img_width img * img_height img * img_channels img"
      unfolding i_def using x y z by (rule pixel_index_in_buffer)
    then have i: "i < length (img_data img)" using buf by (simp add: cube_buffers_def)
    have "i < 2147483648" using il ints by (simp add: int_indexed_def)
    then have ir: "int_result (int i) = Inr (int i)" by (rule int_result_nat)
    have rd: "read_data img (int i) = Inr (img_data img ! i)" using i by (rule read_data_nat)
    have lv: "loc_val_squared dt (img_data img ! i) = Inr (square_of dt (img_data img ! i))"
      using sq i by (rule squares_fitD)
    show ?thesis
      unfolding add_channel_def pixel_value_def i_def[symmetric] fst_conv snd_conv prod.case
      by (simp only: ir rd lv sum.case)
  qed
  show ?thesis
    using for_loop_pair_updates[of "[0..<img_channels img]" "add_channel dt img x y"
        "\<lambda>z s. plus_assign dt s (Finite (pixel_value img (x, y) z))"
        "\<lambda>z s. plus_assign dt s (square_of dt (pixel_value img (x, y) z))", OF step]
      fold_apply_all[of "\<lambda>z s. plus_assign dt s (Finite (pixel_value img (x, y) z))" sv]
      fold_apply_all[of "\<lambda>z s. plus_assign dt s (square_of dt (pixel_value img (x, y) z))" sq] len
    by simp
qed

lemma running_sum_snoc:
  "running_sum dt img (ps @ [p]) z =
     plus_assign dt (running_sum dt img ps z) (Finite (pixel_value img p z))"
  by (simp add: running_sum_def)

lemma running_square_sum_snoc:
  "running_square_sum dt img (ps @ [p]) z =
     plus_assign dt (running_square_sum dt img ps z) (square_of dt (pixel_value img p z))"
  by (simp add: running_square_sum_def)

lemma pixel_step:
  assumes buf: "cube_buffers img" and sq: "squares_fit dt img" and ints: "int_indexed img"
    and x: "x < img_width img" and y: "y < img_height img"
  shows "(case sums_over dt img P ps of (n, vs) \<Rightarrow>
           if P (x, y) then
             (case for_loop [0..<img_channels img] (add_channel dt img x y) vs of
                Inl e \<Rightarrow> Inl e
              | Inr vs' \<Rightarrow> Inr (n + 1, vs'))
           else Inr (n, vs)) = Inr (sums_over dt img P (ps @ [(x, y)]))"
proof (cases "P (x, y)")
  case False
  then show ?thesis by (simp add: sums_over_def)
next
  case True
  show ?thesis
    using True
    by (simp add: sums_over_def channel_loop[OF buf sq ints x y] running_sum_snoc
        running_square_sum_snoc)
qed

lemma accumulate_sums:
  assumes buf: "cube_buffers img" and sq: "squares_fit dt img" and ints: "int_indexed img"
  shows "accumulate_pixels dt img (polygon_mask rule pts) =
     Inr (sums_over dt img (\<lambda>p. rule [pts] (fst p) (snd p))
            (List.product [0..<img_width img] [0..<img_height img]))"
proof -
  let ?P = "\<lambda>p. rule [pts] (fst p) (snd p)"
  let ?H = "img_height img"
  let ?inner = "\<lambda>x y. \<lambda>(n, vs).
         if polygon_mask rule pts y x > 128 then
           (case for_loop [0..<img_channels img] (add_channel dt img x y) vs of
              Inl e \<Rightarrow> Inl e
            | Inr vs' \<Rightarrow> Inr (n + 1, vs'))
         else Inr (n, vs)"
  have inner: "for_loop [0..<?H] (?inner x) (sums_over dt img ?P ps) =
      Inr (sums_over dt img ?P (ps @ map (Pair x) [0..<?H]))" if x: "x < img_width img" for x ps
  proof -
    have "for_loop [0..<?H] (?inner x) ((\<lambda>d. sums_over dt img ?P (ps @ map (Pair x) d)) []) =
      Inr ((\<lambda>d. sums_over dt img ?P (ps @ map (Pair x) d)) ([] @ [0..<?H]))"
    proof (rule for_loop_trace)
      fix y d assume "y \<in> set [0..<?H]"
      then have y: "y < ?H" by simp
      show "?inner x y (sums_over dt img ?P (ps @ map (Pair x) d)) =
         Inr (sums_over dt img ?P (ps @ map (Pair x) (d @ [y])))"
        using pixel_step[OF buf sq ints x y, of ?P "ps @ map (Pair x) d"]
        by (simp add: polygon_mask_inside)
    qed
    then show ?thesis by simp
  qed
  have "for_loop [0..<img_width img] (\<lambda>x. for_loop [0..<?H] (?inner x))
          ((\<lambda>d. sums_over dt img ?P (List.product d [0..<?H])) []) =
        Inr ((\<lambda>d. sums_over dt img ?P (List.product d [0..<?H])) ([] @ [0..<img_width img]))"
  proof (rule for_loop_trace)
    fix x d assume "x \<in> set [0..<img_width img]"
    then have x: "x < img_width img" by simp
    show "for_loop [0..<?H] (?inner x) (sums_over dt img ?P (List.product d [0..<?H])) =
       Inr (sums_over dt img ?P (List.product (d @ [x]) [0..<?H]))"
      using inner[OF x] by (simp add: product_snoc)
  qed
  moreover have "sums_over dt img ?P (List.product [] [0..<?H]) =
      (0, replicate (img_channels img) (Finite 0), replicate (img_channels img) (Finite 0))"
    by (simp add: sums_over_def running_sum_def[abs_def] running_square_sum_def[abs_def]
        map_replicate_const)
  ultimately show ?thesis by (simp add: accumulate_pixels_def)
qed

lemma polygon_result_ok:
  assumes buf: "cube_buffers img" and wl: "img_wavelength img = Some wl"
    and len: "length res = img_channels img"
  shows "\<exists>s. polygon_result img (n, sum_v, sq_sum_v) res = Inr s \<and>
           length s = img_channels img \<and>
           (\<forall>z < img_channels img.
              s ! z = \<lparr>sm_wavelength = wl ! z,
                       sm_value = channel_mean_double (sum_v ! z) n,
                       sm_std = channel_std_double (sq_sum_v ! z) (sum_v ! z) n\<rparr>)"
proof -
  let ?f = "\<lambda>z. \<lparr>sm_wavelength = wl ! z,
                       sm_value = channel_mean_double (sum_v ! z) n,
                       sm_std = channel_std_double (sq_sum_v ! z) (sum_v ! z) n\<rparr>"
  let ?s = "fold (\<lambda>z r. r[z := ?f z]) [0..<img_channels img] res"
  have lwl: "length wl = img_channels img" using buf wl by (simp add: cube_buffers_def)
  have "polygon_result img (n, sum_v, sq_sum_v) res = Inr ?s"
    unfolding polygon_result_def prod.case
    by (rule for_loop_updates) (use wl lwl in \<open>simp add: read_wavelength_def\<close>)
  moreover have "length ?s = img_channels img" by (simp add: fold_updates_length len)
  moreover have "\<forall>z < img_channels img. ?s ! z = ?f z" by (simp add: fold_updates_nth len)
  ultimately show ?thesis by blast
qed

text \<open>
  The polygon case for a contour that could be formed: the spectrum of the covered
  pixels, sums and quotients in \<open>double\<close>.
\<close>

lemma polygon_spectrum:
  assumes pre: "preconditions img" and buf: "cube_buffers img" and ints: "int_indexed img"
    and poly: "2 \<le> length poly"
    and sq: "squares_fit dt img"
    and pts: "transformed_pt img poly = Inr pts"
  shows "\<exists>s wl. get_spectrum_polygon rule dt img poly = Inr s \<and>
           img_wavelength img = Some wl \<and> length s = img_channels img \<and>
           (\<forall>z < img_channels img.
              s ! z = pixel_statistics dt img wl (covered_pixels rule img pts) z)"
proof -
  let ?ins = "covered_pixels rule img pts"
  let ?C = "img_channels img"
  obtain wl where wl: "img_wavelength img = Some wl"
    using pre by (auto simp: preconditions_def)
  let ?sv = "map (running_sum dt img ?ins) [0..<?C]"
  let ?sq = "map (running_square_sum dt img ?ins) [0..<?C]"
  have acc: "accumulate_pixels dt img (polygon_mask rule pts) = Inr (length ?ins, ?sv, ?sq)"
    using accumulate_sums[OF buf sq ints, of rule pts]
    by (simp add: sums_over_def covered_pixels_def)
  obtain s where s: "polygon_result img (length ?ins, ?sv, ?sq)
        (replicate ?C spectral_mean_default) = Inr s" "length s = ?C"
    and each: "\<And>z. z < ?C \<Longrightarrow> s ! z = \<lparr>sm_wavelength = wl ! z,
                       sm_value = channel_mean_double (?sv ! z) (length ?ins),
                       sm_std = channel_std_double (?sq ! z) (?sv ! z) (length ?ins)\<rparr>"
    using polygon_result_ok[OF buf wl, of "replicate ?C spectral_mean_default" "length ?ins" ?sv ?sq]
    by auto
  have "get_spectrum_polygon rule dt img poly = Inr s"
    using pre poly acc s(1) pts by (simp add: get_spectrum_polygon_def preconditions_def)
  moreover have "\<forall>z < ?C. s ! z = pixel_statistics dt img wl ?ins z"
    using each by (simp add: pixel_statistics_def)
  ultimately show ?thesis using wl s(2) by blast
qed

text \<open>The square can be formed for floating-point elements and for narrow integers up to 46340.\<close>

lemma squares_fit_floating: "is_floating_point dt \<Longrightarrow> squares_fit dt img"
  by (simp add: squares_fit_def loc_val_squared_def list_all_iff)

lemma square_fits_int:
  assumes "\<bar>k\<bar> \<le> 46340"
  shows "k * k < (2147483648::int)"
proof -
  have "k * k = \<bar>k\<bar> * \<bar>k\<bar>" by simp
  also have "\<dots> \<le> 46340 * 46340" using assms by (intro mult_mono) simp_all
  also have "\<dots> < 2147483648" by simp
  finally show ?thesis .
qed

lemma pow31: "(2::int) ^ 31 = 2147483648"
  by simp

lemma loc_val_squared_narrow:
  assumes "\<not> is_floating_point dt" and "sizeof dt < 4" and "\<bar>k\<bar> \<le> 46340"
  shows "loc_val_squared dt (of_int k) = Inr (Finite (of_int k * of_int k))"
proof -
  have "k * k < 2 ^ 31" using square_fits_int[OF assms(3)] by (simp only: pow31)
  then show ?thesis
    using assms(1,2) unfolding loc_val_squared_def Let_def
    by (simp only: floor_of_int if_True if_False of_int_mult)
qed

lemma squares_fit_narrow:
  assumes "\<not> is_floating_point dt" and "sizeof dt < 4"
    and "\<forall>v \<in> set (img_data img). \<exists>k::int. v = of_int k \<and> \<bar>k\<bar> \<le> 46340"
  shows "squares_fit dt img"
proof -
  have "(case loc_val_squared dt v of Inl e \<Rightarrow> False | Inr sq \<Rightarrow> True)"
    if "v \<in> set (img_data img)" for v
  proof -
    from assms(3) that have "\<exists>k::int. v = of_int k \<and> \<bar>k\<bar> \<le> 46340" by (rule bspec)
    then obtain k :: int where k: "v = of_int k" "\<bar>k\<bar> \<le> 46340" by (elim exE conjE)
    have "loc_val_squared dt v = Inr (Finite (of_int k * of_int k))"
      unfolding k(1) using assms(1,2) k(2) by (rule loc_val_squared_narrow)
    then show ?thesis by (simp only: sum.case)
  qed
  then have "\<forall>v \<in> set (img_data img).
      (case loc_val_squared dt v of Inl e \<Rightarrow> False | Inr sq \<Rightarrow> True)" by (rule ballI)
  then show ?thesis by (simp only: squares_fit_def list_all_iff)
qed

lemma mask_exceeds_half:
  "(255 < 2 * unat (polygon_mask rule pts y x)) = (polygon_mask rule pts y x > 128)"
  by (simp add: polygon_mask_def fillPoly_def)

text \<open>
  Claim C1. The claim: for every cube that satisfies the preconditions and every
  polygon with \<open>n > 0\<close> inside pixels, each channel's value is \<open>sum[z] / n\<close> and its
  standard deviation \<open>sqrt ((sqsum[z] - 2 * sum[z] * mean) / n + mean * mean)\<close>, with
  \<open>sum\<close> and \<open>sqsum\<close> the sums of the values and of the squared values over the
  inside pixels. The code forms the square in the element type: for a 16-bit unsigned
  cube that holds the value 65535 the product \<open>65535 * 65535\<close> is formed in \<open>int\<close>
  and does not fit, so no square sum is computed for that cube. (Lemma
  \<open>polygon_spectrum\<close> above gives the result whenever every square can be formed.)
\<close>

theorem square_sum_overflows_for_uint16:
  "preconditions cube_saturated \<and> cube_buffers cube_saturated \<and>
   inside_pixels fill_all cube_saturated
     [\<lparr>pt_x = 0, pt_y = 0\<rparr>, \<lparr>pt_x = 1, pt_y = 0\<rparr>, \<lparr>pt_x = 1, pt_y = 1\<rparr>, \<lparr>pt_x = 0, pt_y = 1\<rparr>]
     = [(0, 0), (0, 1), (1, 0), (1, 1)] \<and>
   loc_val_squared uint16_t 65535 = Inl Undefined_Behaviour \<and>
   get_spectrum_polygon fill_all uint16_t cube_saturated
     [\<lparr>pt_x = 0, pt_y = 0\<rparr>, \<lparr>pt_x = 1, pt_y = 0\<rparr>, \<lparr>pt_x = 1, pt_y = 1\<rparr>, \<lparr>pt_x = 0, pt_y = 1\<rparr>]
     = Inl Undefined_Behaviour"
  by (simp add: get_spectrum_polygon_def cube_saturated_def accumulate_pixels_def polygon_mask_def
      fillPoly_def fill_all_def add_channel_def read_data_def loc_val_squared_def uint16_t_def
      preconditions_def cube_buffers_def inside_pixels_def covered_pixels_def upt_conv_Cons
      double_exact truncate_toward_zero_def int_result_def)

lemma double_three_halves: "fp_round binary64 (3 / 2) = Finite (3 / 2)"
  using fp_round_exact[of "3 / 2" 3 "- 1" binary64] by (simp add: binary64_def)

text \<open>
  Claim C2. The claim: each polygon vertex \<open>(x, y)\<close> is mapped to
  \<open>(x * (W - 1), y * (H - 1))\<close> rounded to the nearest pixel. The code passes the two
  products to the constructor of an integer point, which drops the fraction: on a
  4 by 4 cube the vertex \<open>(0.5, 0.5)\<close> becomes pixel \<open>(1, 1)\<close>, where rounding to the
  nearest pixel (as the single point case does with \<open>std::round\<close>) gives \<open>(2, 2)\<close>.
\<close>

theorem polygon_vertices_are_truncated:
  "transformed_pt cube_4x4
     [\<lparr>pt_x = 1 / 2, pt_y = 1 / 2\<rparr>, \<lparr>pt_x = 1, pt_y = 1\<rparr>, \<lparr>pt_x = 0, pt_y = 1\<rparr>]
     = Inr [(1, 1), (3, 3), (0, 3)] \<and>
   (round (1 / 2 * real (img_width cube_4x4 - 1)),
    round (1 / 2 * real (img_height cube_4x4 - 1))) = (2, 2) \<and>
   (std_round (1 / 2 * real (img_width cube_4x4 - 1)),
    std_round (1 / 2 * real (img_height cube_4x4 - 1))) = (2, 2)"
  by (simp add: cube_4x4_def double_three_halves double_exact truncate_toward_zero_def
      int_result_def round_def std_round_def)

text \<open>The conversion of a \<open>double\<close> product to an \<open>int\<close> coordinate.\<close>

lemma double_to_int_fits:
  assumes "fits_int (round_nearest binary64 x)"
  shows "double_to_int (fp_round binary64 x) =
     Inr (truncate_toward_zero (round_nearest binary64 x))"
proof -
  define r where "r = round_nearest binary64 x"
  have r: "- 2147483649 < r" "r < 2147483648" using assms by (simp_all add: fits_int_def r_def)
  then have "\<bar>r\<bar> < 2 powi (e_max binary64 + 1)" by (simp add: binary64_def abs_less_iff)
  then have fin: "fp_round binary64 x = Finite r" unfolding r_def by (rule fp_round_finite)
  have "- 2147483648 \<le> truncate_toward_zero r \<and> truncate_toward_zero r < 2147483648"
  proof (cases "0 \<le> r")
    case True
    then have "0 \<le> \<lfloor>r\<rfloor>" by simp
    moreover have "\<lfloor>r\<rfloor> < 2147483648" using r(2) by (simp add: floor_less_iff)
    ultimately show ?thesis using True by (simp add: truncate_toward_zero_def)
  next
    case False
    then have "\<lceil>r\<rceil> \<le> 0" by (simp add: ceiling_le_iff)
    moreover have "- 2147483648 \<le> \<lceil>r\<rceil>" using r(1) by (simp add: le_ceiling_iff)
    ultimately show ?thesis using False by (simp add: truncate_toward_zero_def)
  qed
  then have "int_result (truncate_toward_zero r) = Inr (truncate_toward_zero r)"
    by (simp add: int_result_ok)
  then show ?thesis by (simp add: fin r_def[symmetric])
qed

lemma transformed_pt_scaled:
  assumes "\<forall>p \<in> set poly.
      fits_int (round_nearest binary64 (pt_x p * real (img_width img - 1))) \<and>
      fits_int (round_nearest binary64 (pt_y p * real (img_height img - 1)))"
  shows "transformed_pt img poly =
     Inr (map (\<lambda>p. (truncate_toward_zero (round_nearest binary64 (pt_x p * real (img_width img - 1))),
                    truncate_toward_zero (round_nearest binary64 (pt_y p * real (img_height img - 1)))))
            poly)"
  using assms
proof (induction poly)
  case Nil
  then show ?case by simp
next
  case (Cons p poly)
  have x: "double_to_int (fp_mul binary64 (Finite (pt_x p)) (Finite (real (img_width img - 1)))) =
      Inr (truncate_toward_zero (round_nearest binary64 (pt_x p * real (img_width img - 1))))"
    using Cons.prems double_to_int_fits[of "pt_x p * real (img_width img - 1)"] by simp
  have y: "double_to_int (fp_mul binary64 (Finite (pt_y p)) (Finite (real (img_height img - 1)))) =
      Inr (truncate_toward_zero (round_nearest binary64 (pt_y p * real (img_height img - 1))))"
    using Cons.prems double_to_int_fits[of "pt_y p * real (img_height img - 1)"] by simp
  have rest: "transformed_pt img poly =
     Inr (map (\<lambda>p. (truncate_toward_zero (round_nearest binary64 (pt_x p * real (img_width img - 1))),
                    truncate_toward_zero (round_nearest binary64 (pt_y p * real (img_height img - 1)))))
            poly)"
    using Cons.prems by (intro Cons.IH) simp
  show ?case by (simp only: transformed_pt.simps x y rest sum.case list.map)
qed

text \<open>
  Claim C10, amended. The claim: the polygon case validates no vertex; a vertex
  outside \<open>[0, 1]\<close> is scaled and rasterised like any other, and neither an error
  nor the sentinel spectrum results from it. That holds as long as the scaled
  coordinates are \<open>int\<close>s: the conversion of a product beyond the range of \<open>int\<close>
  is undefined. For a cube that passes the assertions, whose buffers match its
  dimensions and whose element indices are \<open>int\<close>s, for elements whose squares can
  be formed, and for every polygon of at least two points, inside \<open>[0, 1]\<close> or not,
  whose products \<open>x * (W - 1)\<close> and \<open>y * (H - 1)\<close>, rounded to \<open>double\<close>, fit \<open>int\<close>:
  every vertex becomes the pixel coordinate with these products truncated toward
  zero, and the function returns the statistics of the pixels that the fill rule
  covers for this contour, each entry with the wavelength of its channel; when no
  pixel is covered, value and standard deviation are NaN.
\<close>

theorem polygon_vertices_are_not_range_checked:
  assumes "preconditions img" and "cube_buffers img" and "int_indexed img"
    and "2 \<le> length poly" and "squares_fit dt img"
    and "\<forall>p \<in> set poly.
      fits_int (round_nearest binary64 (pt_x p * real (img_width img - 1))) \<and>
      fits_int (round_nearest binary64 (pt_y p * real (img_height img - 1)))"
  shows "\<exists>s wl. get_spectrum_polygon rule dt img poly = Inr s \<and>
           img_wavelength img = Some wl \<and> length s = img_channels img \<and>
           (\<forall>z < img_channels img.
              s ! z = pixel_statistics dt img wl
                (covered_pixels rule img
                   (map (\<lambda>p. (truncate_toward_zero
                                 (round_nearest binary64 (pt_x p * real (img_width img - 1))),
                               truncate_toward_zero
                                 (round_nearest binary64 (pt_y p * real (img_height img - 1)))))
                      poly)) z) \<and>
           (\<forall>z < img_channels img.
              covered_pixels rule img
                   (map (\<lambda>p. (truncate_toward_zero
                                 (round_nearest binary64 (pt_x p * real (img_width img - 1))),
                               truncate_toward_zero
                                 (round_nearest binary64 (pt_y p * real (img_height img - 1)))))
                      poly) = [] \<longrightarrow>
              sm_value (s ! z) = NaN \<and> sm_std (s ! z) = NaN)"
proof -
  let ?pts = "map (\<lambda>p. (truncate_toward_zero
                                 (round_nearest binary64 (pt_x p * real (img_width img - 1))),
                               truncate_toward_zero
                                 (round_nearest binary64 (pt_y p * real (img_height img - 1)))))
                      poly"
  have pts: "transformed_pt img poly = Inr ?pts"
    using assms(6) by (rule transformed_pt_scaled)
  obtain s wl where s: "get_spectrum_polygon rule dt img poly = Inr s"
      "img_wavelength img = Some wl" "length s = img_channels img"
    and each: "\<forall>z < img_channels img.
              s ! z = pixel_statistics dt img wl (covered_pixels rule img ?pts) z"
    using polygon_spectrum[OF assms(1,2,3,4,5) pts, of rule] by blast
  have "sm_value (s ! z) = NaN \<and> sm_std (s ! z) = NaN"
    if "z < img_channels img" "covered_pixels rule img ?pts = []" for z
    using each that
    by (simp add: pixel_statistics_def running_sum_def running_square_sum_def
        channel_mean_double_def channel_std_double_def fp_sub_def double_exact)
  with s each show ?thesis by blast
qed

lemma double_nine_halves: "round_nearest binary64 (9 / 2) = 9 / 2"
  using round_nearest_exact[of "9 / 2" 9 "- 1" binary64] by (simp add: binary64_def)

lemma double_minus_three_halves: "round_nearest binary64 (- (3 / 2)) = - (3 / 2)"
  using round_nearest_exact[of "- (3 / 2)" "- 3" "- 1" binary64] by (simp add: binary64_def)

lemma double_round_numeral:
  "(numeral k :: int) \<le> 2 ^ 53 \<Longrightarrow> round_nearest binary64 (numeral k) = numeral k"
  using round_nearest_of_int[of "numeral k" binary64] by (simp add: binary64_def)

lemma sqrt_0_double: "fp_sqrt binary64 (Finite 0) = Finite 0"
  by (simp add: double_exact)

theorem polygon_vertices_are_not_range_checked_witness:
  "(\<exists>s. get_spectrum_polygon fill_box uint8_t cube_4x4
          [\<lparr>pt_x = - (1 / 2), pt_y = - (1 / 2)\<rparr>, \<lparr>pt_x = 3 / 2, pt_y = 3 / 2\<rparr>] = Inr s \<and>
        length s = 1 \<and>
        s ! 0 = \<lparr>sm_wavelength = 500, sm_value = Finite 100, sm_std = Finite 0\<rparr>) \<and>
   (\<exists>s. get_spectrum_polygon fill_box uint8_t cube_4x4
          [\<lparr>pt_x = 2, pt_y = 2\<rparr>, \<lparr>pt_x = 3, pt_y = 3\<rparr>] = Inr s \<and>
        length s = 1 \<and>
        s ! 0 = \<lparr>sm_wavelength = 500, sm_value = NaN, sm_std = NaN\<rparr>)"
proof -
  let ?poly = "[\<lparr>pt_x = - (1 / 2), pt_y = - (1 / 2)\<rparr>, \<lparr>pt_x = 3 / 2, pt_y = 3 / 2 :: real\<rparr>]"
  let ?off = "[\<lparr>pt_x = 2, pt_y = 2\<rparr>, \<lparr>pt_x = 3, pt_y = 3 :: real\<rparr>]"
  have pre: "preconditions cube_4x4" "cube_buffers cube_4x4" "int_indexed cube_4x4"
    by (simp_all add: preconditions_def cube_buffers_def int_indexed_def cube_4x4_def)
  have len: "2 \<le> length ?poly" "2 \<le> length ?off" by simp_all
  have fit: "squares_fit uint8_t cube_4x4"
    by (simp add: squares_fit_def loc_val_squared_def uint8_t_def cube_4x4_def list_all_iff
        Let_def)
  have in1: "\<forall>p \<in> set ?poly.
      fits_int (round_nearest binary64 (pt_x p * real (img_width cube_4x4 - 1))) \<and>
      fits_int (round_nearest binary64 (pt_y p * real (img_height cube_4x4 - 1)))"
    by (simp add: cube_4x4_def double_nine_halves double_minus_three_halves fits_int_def)
  have in2: "\<forall>p \<in> set ?off.
      fits_int (round_nearest binary64 (pt_x p * real (img_width cube_4x4 - 1))) \<and>
      fits_int (round_nearest binary64 (pt_y p * real (img_height cube_4x4 - 1)))"
    by (simp add: cube_4x4_def double_round_numeral fits_int_def)
  have pts1: "map (\<lambda>p. (truncate_toward_zero
                 (round_nearest binary64 (pt_x p * real (img_width cube_4x4 - 1))),
               truncate_toward_zero
                 (round_nearest binary64 (pt_y p * real (img_height cube_4x4 - 1))))) ?poly
      = [(- 1, - 1), (4, 4)]"
    by (simp add: cube_4x4_def double_nine_halves double_minus_three_halves
        truncate_toward_zero_def)
  have pts2: "map (\<lambda>p. (truncate_toward_zero
                 (round_nearest binary64 (pt_x p * real (img_width cube_4x4 - 1))),
               truncate_toward_zero
                 (round_nearest binary64 (pt_y p * real (img_height cube_4x4 - 1))))) ?off
      = [(6, 6), (9, 9)]"
    by (simp add: cube_4x4_def double_round_numeral truncate_toward_zero_def)
  have cov1: "covered_pixels fill_box cube_4x4 [(- 1, - 1), (4, 4)] =
      [(0, 0), (0, 1), (0, 2), (0, 3), (1, 0), (1, 1), (1, 2), (1, 3),
       (2, 0), (2, 1), (2, 2), (2, 3), (3, 0), (3, 1), (3, 2), (3, 3)]"
    by (simp add: covered_pixels_def fill_box_def cube_4x4_def upt_conv_Cons)
  have cov2: "covered_pixels fill_box cube_4x4 [(6, 6), (9, 9)] = []"
    by (simp add: covered_pixels_def fill_box_def cube_4x4_def upt_conv_Cons)
  have z0: "0 < img_channels cube_4x4" by (simp add: cube_4x4_def)
  from polygon_vertices_are_not_range_checked[OF pre len(1) fit in1, of fill_box]
  obtain s wl where s: "get_spectrum_polygon fill_box uint8_t cube_4x4 ?poly = Inr s"
      "img_wavelength cube_4x4 = Some wl" "length s = img_channels cube_4x4"
    and each: "\<forall>z < img_channels cube_4x4.
        s ! z = pixel_statistics uint8_t cube_4x4 wl
                  (covered_pixels fill_box cube_4x4 [(- 1, - 1), (4, 4)]) z"
    unfolding pts1 by blast
  from polygon_vertices_are_not_range_checked[OF pre len(2) fit in2, of fill_box]
  obtain t wl' where t: "get_spectrum_polygon fill_box uint8_t cube_4x4 ?off = Inr t"
      "img_wavelength cube_4x4 = Some wl'" "length t = img_channels cube_4x4"
    and each': "\<forall>z < img_channels cube_4x4.
        t ! z = pixel_statistics uint8_t cube_4x4 wl'
                  (covered_pixels fill_box cube_4x4 [(6, 6), (9, 9)]) z"
    unfolding pts2 by blast
  have wl: "wl = [500]" "wl' = [500]" using s(2) t(2) by (simp_all add: cube_4x4_def)
  have sum: "running_sum uint8_t cube_4x4
      [(0, 0), (0, 1), (0, 2), (0, 3), (1, 0), (1, 1), (1, 2), (1, 3),
       (2, 0), (2, 1), (2, 2), (2, 3), (3, 0), (3, 1), (3, 2), (3, 3)] 0 = Finite 1600"
    by (simp add: running_sum_def plus_assign_def uint8_t_def pixel_value_def cube_4x4_def
        double_exact)
  have sq: "running_square_sum uint8_t cube_4x4
      [(0, 0), (0, 1), (0, 2), (0, 3), (1, 0), (1, 1), (1, 2), (1, 3),
       (2, 0), (2, 1), (2, 2), (2, 3), (3, 0), (3, 1), (3, 2), (3, 3)] 0 = Finite 160000"
    by (simp add: running_square_sum_def plus_assign_def uint8_t_def pixel_value_def cube_4x4_def
        square_of_def loc_val_squared_def double_exact)
  have stat: "pixel_statistics uint8_t cube_4x4 [500]
      [(0, 0), (0, 1), (0, 2), (0, 3), (1, 0), (1, 1), (1, 2), (1, 3),
       (2, 0), (2, 1), (2, 2), (2, 3), (3, 0), (3, 1), (3, 2), (3, 3)] 0 =
      \<lparr>sm_wavelength = 500, sm_value = Finite 100, sm_std = Finite 0\<rparr>"
    unfolding pixel_statistics_def sum sq
    by (simp add: channel_mean_double_def channel_std_double_def fp_sub_def double_exact)
  have stat': "pixel_statistics uint8_t cube_4x4 [500] [] 0 =
      \<lparr>sm_wavelength = 500, sm_value = NaN, sm_std = NaN\<rparr>"
    by (simp add: pixel_statistics_def running_sum_def running_square_sum_def
        channel_mean_double_def channel_std_double_def fp_sub_def double_exact)
  have "s ! 0 = \<lparr>sm_wavelength = 500, sm_value = Finite 100, sm_std = Finite 0\<rparr>"
    using each[rule_format, OF z0] unfolding cov1 wl stat .
  moreover have "t ! 0 = \<lparr>sm_wavelength = 500, sm_value = NaN, sm_std = NaN\<rparr>"
    using each'[rule_format, OF z0] unfolding cov2 wl stat' .
  moreover have "length s = 1" "length t = 1" using s(3) t(3) by (simp_all add: cube_4x4_def)
  ultimately show ?thesis using s(1) t(1) by blast
qed

text \<open>
  A vertex whose scaled coordinate is no \<open>int\<close>: \<open>10000000000 * 3\<close> is beyond the
  range of \<open>int\<close>, and its conversion to the coordinate of the pixel is undefined.
\<close>

theorem scaled_vertex_beyond_int:
  "preconditions cube_4x4 \<and> cube_buffers cube_4x4 \<and>
   fp_mul binary64 (Finite 10000000000) (Finite (real (img_width cube_4x4 - 1))) =
     Finite 30000000000 \<and>
   get_spectrum_polygon fill_box uint8_t cube_4x4
     [\<lparr>pt_x = 10000000000, pt_y = 0\<rparr>, \<lparr>pt_x = 0, pt_y = 0\<rparr>] = Inl Undefined_Behaviour"
  by (simp add: get_spectrum_polygon_def preconditions_def cube_buffers_def cube_4x4_def
      double_exact truncate_toward_zero_def int_result_def)

subsection \<open>The histogram extractor\<close>













































































end
